theory Spec2Isabelle
  imports
    Complex_Main
    "HOL-Library.Char_ord"
    "HOL-Library.List_Lexorder"
    "HOL-Library.Product_Lexorder"
begin

section \<open>Data model\<close>

text \<open>
  The procedures of \<^verbatim>\<open>playlistsRouter\<close> (src/modules/playlists/server/procedures.ts)
  and \<^verbatim>\<open>videosRouter\<close> read and write relational tables through a query builder.
  A table is the list of its rows. Identifiers are strings, compared by the store; the
  comparison is the lexicographic order on character codes. Timestamps are integers
  (milliseconds). A JavaScript \<^verbatim>\<open>number\<close> that passed \<^verbatim>\<open>z.number()\<close> is finite, hence a
  rational.
\<close>

text \<open>
  Modelled from the spec: the table declarations of \<^verbatim>\<open>@/db/schema\<close> are not among the
  sources. Each record below has the columns the procedures read, under the names the
  procedures use (prefixed by the table, since field names are global here). The spec's
  data model gives every record a unique id; the theorems that need it assume it.
\<close>

datatype visibility = Public | Private

datatype reactionType = Like | Dislike

record user =
  u_id :: string

record video =
  v_id :: string
  v_userId :: string
  v_categoryId :: "string option"
  v_visibility :: visibility
  v_thumbnailUrl :: "string option"
  v_updatedAt :: int

record playlist =
  p_id :: string
  p_userId :: string
  p_name :: string
  p_updatedAt :: int

record playlistVideo =
  pv_playlistId :: string
  pv_videoId :: string
  pv_updatedAt :: int

record videoView =
  vv_userId :: string
  vv_videoId :: string
  vv_updatedAt :: int

record videoReaction =
  vr_userId :: string
  vr_videoId :: string
  vr_type :: reactionType
  vr_createdAt :: int

record subscription =
  s_viewerId :: string
  s_creatorId :: string

record db =
  users :: "user list"
  videos :: "video list"
  playlists :: "playlist list"
  playlistVideos :: "playlistVideo list"
  videoViews :: "videoView list"
  videoReactions :: "videoReaction list"
  subscriptions :: "subscription list"

text \<open>The error codes a procedure can fail with, and the statements it sends to the store.\<close>

datatype error = BAD_REQUEST | NOT_FOUND | CONFLICT | INTERNAL_SERVER_ERROR

datatype table = Users | Videos | Playlists | PlaylistVideos | VideoViews | VideoReactions
  | Subscriptions

text \<open>
  \<open>Select t cap\<close> is one awaited \<^verbatim>\<open>db.select()...from(t)\<close> with its \<^verbatim>\<open>.limit(cap)\<close> when
  it has one; \<open>Insert t\<close> is one awaited \<^verbatim>\<open>db.insert(t)\<close>.
\<close>

datatype stmt = Select table "rat option" | Insert table

record 'k cursor =
  cursor_id :: string
  cursor_key :: 'k

record ('r, 'k) page =
  items :: "'r list"
  nextCursor :: "'k cursor option"

text \<open>The rows the listings select: the table's columns and the computed columns.\<close>

record video_item =
  item_video :: video
  item_user :: user
  viewCount :: nat
  likeCount :: nat
  dislikeCount :: nat

record history_item = video_item +
  viewedAt :: int

record liked_item = video_item +
  likedAt :: int

record playlist_item =
  item_playlist :: playlist
  videoCount :: nat
  playlist_user :: user
  thumbnailUrl :: "string option"

record playlist_for_video_item =
  fv_playlist :: playlist
  fv_videoCount :: nat
  fv_user :: user
  containsVideo :: bool

section \<open>The store's query primitives\<close>

definition innerJoin :: "'a list \<Rightarrow> 'b list \<Rightarrow> ('a \<Rightarrow> 'b \<Rightarrow> bool) \<Rightarrow> ('a \<times> 'b) list" where
  "innerJoin xs ys on = concat (map (\<lambda>x. map (Pair x) (filter (on x) ys)) xs)"

text \<open>
  \<^verbatim>\<open>.orderBy(desc(a), desc(b))\<close> with \<open>key r = (a r, b r)\<close>: pairs are ordered
  lexicographically. Rows with equal keys, whose order SQL leaves open, come out in the
  reverse of their table order.
\<close>

definition orderBy_desc :: "('r \<Rightarrow> 'k::linorder) \<Rightarrow> 'r list \<Rightarrow> 'r list" where
  "orderBy_desc key rows = rev (sort_key key rows)"

text \<open>
  \<^verbatim>\<open>.limit(c)\<close>: the first \<open>c\<close> rows. The procedures pass a JavaScript number. What the
  store does with a cap that is not a whole number is not in the sources; here it is cut
  to the whole number below it. The theorems about the rows of a page are stated for whole
  limits.
\<close>

definition row_limit :: "rat \<Rightarrow> 'r list \<Rightarrow> 'r list" where
  "row_limit c rows = take (nat \<lfloor>c\<rfloor>) rows"

text \<open>\<^verbatim>\<open>db.$count(t, p)\<close>\<close>

definition count_rows :: "'a list \<Rightarrow> ('a \<Rightarrow> bool) \<Rightarrow> nat" where
  "count_rows t p = length (filter p t)"

section \<open>Input schemas\<close>

text \<open>
  \<^verbatim>\<open>z.string().cuid2()\<close>: the validation library's pattern for this format accepts the
  non-empty strings of digits and lower-case letters.
\<close>

definition cuid2 :: "string \<Rightarrow> bool" where
  "cuid2 s = (s \<noteq> [] \<and> list_all (\<lambda>c. (CHR ''0'' \<le> c \<and> c \<le> CHR ''9'') \<or> (CHR ''a'' \<le> c \<and> c \<le> CHR ''z'')) s)"

text \<open>\<^verbatim>\<open>z.object({ id: z.string().cuid2(), <key>: ... }).nullish()\<close>\<close>

definition cursor_schema :: "'k cursor option \<Rightarrow> bool" where
  "cursor_schema cursor = (case cursor of None \<Rightarrow> True | Some c \<Rightarrow> cuid2 (cursor_id c))"

text \<open>\<^verbatim>\<open>z.string().cuid2().nullish()\<close>\<close>

definition cuid2_nullish :: "string option \<Rightarrow> bool" where
  "cuid2_nullish s = (case s of None \<Rightarrow> True | Some x \<Rightarrow> cuid2 x)"

text \<open>\<^verbatim>\<open>z.number().min(1).max(100)\<close>\<close>

definition limit_schema :: "rat \<Rightarrow> bool" where
  "limit_schema limit = (1 \<le> limit \<and> limit \<le> 100)"

section \<open>The page of a listing\<close>

text \<open>
  The cursor condition of every listing:
  \<^verbatim>\<open>or(lt(key, cursor.key), and(eq(key, cursor.key), lt(id, cursor.id)))\<close>,
  left out when the cursor is null.
\<close>

definition cursor_where :: "'k::linorder cursor option \<Rightarrow> 'k \<Rightarrow> string \<Rightarrow> bool" where
  "cursor_where cursor key ident =
     (case cursor of
        None \<Rightarrow> True
      | Some c \<Rightarrow> key < cursor_key c \<or> (key = cursor_key c \<and> ident < cursor_id c))"

text \<open>
  The end of every listing:
  \<^verbatim>\<open>
  const hasMore = data.length > limit
  const items = hasMore ? data.slice(0, -1) : data
  const lastItem = items[items.length - 1]
  const nextCursor = hasMore ? { id: lastItem.id, <key>: lastItem.<key> } : null
  return { items, nextCursor }
  \<close>
  \<open>mk\<close> builds the cursor of a row. Reading a field of an undefined \<^verbatim>\<open>lastItem\<close> throws,
  and the call fails with an internal error.
\<close>

definition paginate :: "rat \<Rightarrow> ('r \<Rightarrow> 'k cursor) \<Rightarrow> 'r list \<Rightarrow> error + ('r, 'k) page" where
  "paginate limit mk data =
     (let hasMore = (of_nat (length data) > limit);
          items = (if hasMore then butlast data else data)
      in if hasMore
         then (if items = [] then Inl INTERNAL_SERVER_ERROR
               else Inr \<lparr>items = items, nextCursor = Some (mk (last items))\<rparr>)
         else Inr \<lparr>items = items, nextCursor = None\<rparr>)"

section \<open>playlistsRouter\<close>

subsection \<open>getMany\<close>

definition playlist_thumbnail :: "db \<Rightarrow> playlist \<Rightarrow> string option" where
  "playlist_thumbnail d p =
     (case orderBy_desc (\<lambda>(pv, v). pv_updatedAt pv)
             (filter (\<lambda>(pv, v). pv_playlistId pv = p_id p)
               (innerJoin (playlistVideos d) (videos d) (\<lambda>pv v. v_id v = pv_videoId pv))) of
        [] \<Rightarrow> None
      | (pv, v) # _ \<Rightarrow> v_thumbnailUrl v)"

definition playlists_getMany_select :: "db \<Rightarrow> playlist \<times> user \<Rightarrow> playlist_item" where
  "playlists_getMany_select d = (\<lambda>(p, u).
     \<lparr>item_playlist = p,
      videoCount = count_rows (playlistVideos d) (\<lambda>pv. pv_playlistId pv = p_id p),
      playlist_user = u,
      thumbnailUrl = playlist_thumbnail d p\<rparr>)"

definition playlists_getMany_data ::
  "db \<Rightarrow> string \<Rightarrow> int cursor option \<Rightarrow> rat \<Rightarrow> playlist_item list" where
  "playlists_getMany_data d userId cursor limit =
     row_limit (limit + 1)
       (orderBy_desc (\<lambda>r. (p_updatedAt (item_playlist r), p_id (item_playlist r)))
         (map (playlists_getMany_select d)
           (filter (\<lambda>(p, u). p_userId p = userId \<and> cursor_where cursor (p_updatedAt p) (p_id p))
             (innerJoin (playlists d) (users d) (\<lambda>p u. p_userId p = u_id u)))))"

definition playlists_getMany ::
  "db \<Rightarrow> string \<Rightarrow> int cursor option \<Rightarrow> rat \<Rightarrow> (error + (playlist_item, int) page) \<times> stmt list" where
  "playlists_getMany d userId cursor limit =
     (if \<not> (cursor_schema cursor \<and> limit_schema limit) then (Inl BAD_REQUEST, [])
      else (paginate limit
              (\<lambda>r. \<lparr>cursor_id = p_id (item_playlist r), cursor_key = p_updatedAt (item_playlist r)\<rparr>)
              (playlists_getMany_data d userId cursor limit),
            [Select Playlists (Some (limit + 1))]))"

subsection \<open>getManyForVideo\<close>

definition playlists_getManyForVideo_select ::
  "db \<Rightarrow> string \<Rightarrow> playlist \<times> user \<Rightarrow> playlist_for_video_item" where
  "playlists_getManyForVideo_select d videoId = (\<lambda>(p, u).
     \<lparr>fv_playlist = p,
      fv_videoCount = count_rows (playlistVideos d) (\<lambda>pv. pv_playlistId pv = p_id p),
      fv_user = u,
      containsVideo =
        (if videoId \<noteq> []
         then list_ex (\<lambda>pv. pv_playlistId pv = p_id p \<and> pv_videoId pv = videoId) (playlistVideos d)
         else False)\<rparr>)"

definition playlists_getManyForVideo_data ::
  "db \<Rightarrow> string \<Rightarrow> string \<Rightarrow> int cursor option \<Rightarrow> rat \<Rightarrow> playlist_for_video_item list" where
  "playlists_getManyForVideo_data d userId videoId cursor limit =
     row_limit (limit + 1)
       (orderBy_desc (\<lambda>r. (p_updatedAt (fv_playlist r), p_id (fv_playlist r)))
         (map (playlists_getManyForVideo_select d videoId)
           (filter (\<lambda>(p, u). p_userId p = userId \<and> cursor_where cursor (p_updatedAt p) (p_id p))
             (innerJoin (playlists d) (users d) (\<lambda>p u. p_userId p = u_id u)))))"

definition playlists_getManyForVideo ::
  "db \<Rightarrow> string \<Rightarrow> string \<Rightarrow> int cursor option \<Rightarrow> rat
    \<Rightarrow> (error + (playlist_for_video_item, int) page) \<times> stmt list" where
  "playlists_getManyForVideo d userId videoId cursor limit =
     (if \<not> (cuid2 videoId \<and> cursor_schema cursor \<and> limit_schema limit) then (Inl BAD_REQUEST, [])
      else (paginate limit
              (\<lambda>r. \<lparr>cursor_id = p_id (fv_playlist r), cursor_key = p_updatedAt (fv_playlist r)\<rparr>)
              (playlists_getManyForVideo_data d userId videoId cursor limit),
            [Select Playlists (Some (limit + 1))]))"

subsection \<open>The columns every video listing selects\<close>

text \<open>
  \<^verbatim>\<open>...getTableColumns(videos), user: users, viewCount: db.$count(videoViews, ...),
  likeCount: db.$count(videoReactions, ... 'like'), dislikeCount: db.$count(videoReactions, ... 'dislike')\<close>
\<close>

definition video_select :: "db \<Rightarrow> video \<Rightarrow> user \<Rightarrow> video_item" where
  "video_select d v u =
     \<lparr>item_video = v,
      item_user = u,
      viewCount = count_rows (videoViews d) (\<lambda>w. vv_videoId w = v_id v),
      likeCount = count_rows (videoReactions d) (\<lambda>r. vr_videoId r = v_id v \<and> vr_type r = Like),
      dislikeCount = count_rows (videoReactions d) (\<lambda>r. vr_videoId r = v_id v \<and> vr_type r = Dislike)\<rparr>"

subsection \<open>getHistory\<close>

text \<open>The common table expression \<^verbatim>\<open>viewer_video_views\<close>: rows \<open>(videoId, viewedAt)\<close>.\<close>

definition viewerVideoViews :: "db \<Rightarrow> string \<Rightarrow> (string \<times> int) list" where
  "viewerVideoViews d userId =
     map (\<lambda>w. (vv_videoId w, vv_updatedAt w)) (filter (\<lambda>w. vv_userId w = userId) (videoViews d))"

definition playlists_getHistory_data ::
  "db \<Rightarrow> string \<Rightarrow> int cursor option \<Rightarrow> rat \<Rightarrow> history_item list" where
  "playlists_getHistory_data d userId cursor limit =
     row_limit (limit + 1)
       (orderBy_desc (\<lambda>r. (v_updatedAt (item_video r), v_id (item_video r)))
         (map (\<lambda>((v, u), (videoId, viewed)). video_item.extend (video_select d v u) \<lparr>viewedAt = viewed\<rparr>)
           (filter (\<lambda>((v, u), (videoId, viewed)).
                      v_visibility v = Public \<and> cursor_where cursor viewed (v_id v))
             (innerJoin
               (innerJoin (videos d) (users d) (\<lambda>v u. v_userId v = u_id u))
               (viewerVideoViews d userId)
               (\<lambda>(v, u) (videoId, viewed). v_id v = videoId)))))"

definition playlists_getHistory ::
  "db \<Rightarrow> string \<Rightarrow> int cursor option \<Rightarrow> rat \<Rightarrow> (error + (history_item, int) page) \<times> stmt list" where
  "playlists_getHistory d userId cursor limit =
     (if \<not> (cursor_schema cursor \<and> limit_schema limit) then (Inl BAD_REQUEST, [])
      else (paginate limit
              (\<lambda>r. \<lparr>cursor_id = v_id (item_video r), cursor_key = viewedAt r\<rparr>)
              (playlists_getHistory_data d userId cursor limit),
            [Select Videos (Some (limit + 1))]))"

subsection \<open>getLiked\<close>

text \<open>The common table expression \<^verbatim>\<open>viewer_video_reactions\<close>: rows \<open>(videoId, likedAt)\<close>.\<close>

definition viewerVideoReactions :: "db \<Rightarrow> string \<Rightarrow> (string \<times> int) list" where
  "viewerVideoReactions d userId =
     map (\<lambda>r. (vr_videoId r, vr_createdAt r))
       (filter (\<lambda>r. vr_userId r = userId \<and> vr_type r = Like) (videoReactions d))"

definition playlists_getLiked_data ::
  "db \<Rightarrow> string \<Rightarrow> int cursor option \<Rightarrow> rat \<Rightarrow> liked_item list" where
  "playlists_getLiked_data d userId cursor limit =
     row_limit (limit + 1)
       (orderBy_desc (\<lambda>r. (likedAt r, v_id (item_video r)))
         (map (\<lambda>((v, u), (videoId, liked)). video_item.extend (video_select d v u) \<lparr>likedAt = liked\<rparr>)
           (filter (\<lambda>((v, u), (videoId, liked)).
                      v_visibility v = Public \<and> cursor_where cursor liked (v_id v))
             (innerJoin
               (innerJoin (videos d) (users d) (\<lambda>v u. v_userId v = u_id u))
               (viewerVideoReactions d userId)
               (\<lambda>(v, u) (videoId, liked). v_id v = videoId)))))"

definition playlists_getLiked ::
  "db \<Rightarrow> string \<Rightarrow> int cursor option \<Rightarrow> rat \<Rightarrow> (error + (liked_item, int) page) \<times> stmt list" where
  "playlists_getLiked d userId cursor limit =
     (if \<not> (cursor_schema cursor \<and> limit_schema limit) then (Inl BAD_REQUEST, [])
      else (paginate limit
              (\<lambda>r. \<lparr>cursor_id = v_id (item_video r), cursor_key = likedAt r\<rparr>)
              (playlists_getLiked_data d userId cursor limit),
            [Select Videos (Some (limit + 1))]))"

subsection \<open>getVideos\<close>

text \<open>The common table expression \<^verbatim>\<open>playlist_videos\<close>: the video ids of one playlist.\<close>

definition videosFromPlaylist :: "db \<Rightarrow> string \<Rightarrow> string list" where
  "videosFromPlaylist d playlistId =
     map pv_videoId (filter (\<lambda>pv. pv_playlistId pv = playlistId) (playlistVideos d))"

definition playlists_getVideos_data ::
  "db \<Rightarrow> string \<Rightarrow> int cursor option \<Rightarrow> rat \<Rightarrow> video_item list" where
  "playlists_getVideos_data d playlistId cursor limit =
     row_limit (limit + 1)
       (orderBy_desc (\<lambda>r. (v_updatedAt (item_video r), v_id (item_video r)))
         (map (\<lambda>((v, u), videoId). video_select d v u)
           (filter (\<lambda>((v, u), videoId).
                      v_visibility v = Public \<and> cursor_where cursor (v_updatedAt v) (v_id v))
             (innerJoin
               (innerJoin (videos d) (users d) (\<lambda>v u. v_userId v = u_id u))
               (videosFromPlaylist d playlistId)
               (\<lambda>(v, u) videoId. v_id v = videoId)))))"

definition playlists_getVideos ::
  "db \<Rightarrow> string \<Rightarrow> string \<Rightarrow> int cursor option \<Rightarrow> rat
    \<Rightarrow> (error + (video_item, int) page) \<times> stmt list" where
  "playlists_getVideos d userId playlistId cursor limit =
     (if \<not> (cuid2 playlistId \<and> cursor_schema cursor \<and> limit_schema limit) then (Inl BAD_REQUEST, [])
      else if filter (\<lambda>p. p_id p = playlistId \<and> p_userId p = userId) (playlists d) = []
      then (Inl NOT_FOUND, [Select Playlists None])
      else (paginate limit
              (\<lambda>r. \<lparr>cursor_id = v_id (item_video r), cursor_key = v_updatedAt (item_video r)\<rparr>)
              (playlists_getVideos_data d playlistId cursor limit),
            [Select Playlists None, Select Videos (Some (limit + 1))]))"

subsection \<open>addVideo\<close>

text \<open>
  A mutation returns the store it leaves. \<open>now\<close> is the clock value the store gives the
  new row's timestamp column. \<^verbatim>\<open>.returning()\<close> yields the inserted rows.
\<close>

definition insert_playlistVideo :: "db \<Rightarrow> playlistVideo \<Rightarrow> playlistVideo list \<times> db" where
  "insert_playlistVideo d row = ([row], d\<lparr>playlistVideos := playlistVideos d @ [row]\<rparr>)"

definition playlists_addVideo ::
  "db \<Rightarrow> int \<Rightarrow> string \<Rightarrow> string \<Rightarrow> string \<Rightarrow> (error + playlistVideo) \<times> db \<times> stmt list" where
  "playlists_addVideo d now userId playlistId videoId =
     (if \<not> (cuid2 playlistId \<and> cuid2 videoId) then (Inl BAD_REQUEST, d, [])
      else if filter (\<lambda>p. p_id p = playlistId \<and> p_userId p = userId) (playlists d) = []
      then (Inl NOT_FOUND, d, [Select Playlists None])
      else if filter (\<lambda>v. v_id v = videoId) (videos d) = []
      then (Inl NOT_FOUND, d, [Select Playlists None, Select Videos None])
      else if filter (\<lambda>pv. pv_playlistId pv = playlistId \<and> pv_videoId pv = videoId) (playlistVideos d) \<noteq> []
      then (Inl CONFLICT, d, [Select Playlists None, Select Videos None, Select PlaylistVideos None])
      else (case insert_playlistVideo d
                   \<lparr>pv_playlistId = playlistId, pv_videoId = videoId, pv_updatedAt = now\<rparr> of
              (returning, d') \<Rightarrow>
                (case returning of
                   [] \<Rightarrow> Inl INTERNAL_SERVER_ERROR
                 | newPlaylistVideo # _ \<Rightarrow> Inr newPlaylistVideo,
                 d',
                 [Select Playlists None, Select Videos None, Select PlaylistVideos None,
                  Insert PlaylistVideos])))"

section \<open>videosRouter\<close>

subsection \<open>getMany\<close>

text \<open>
  The conditions of the listing but the cursor's:
  \<^verbatim>\<open>eq(videos.visibility, 'public'), userId ? eq(videos.userId, userId) : undefined,
  categoryId ? eq(videos.categoryId, categoryId) : undefined\<close>.
  An absent or empty string is falsy and adds no condition.
\<close>

definition videos_getMany_filter :: "string option \<Rightarrow> string option \<Rightarrow> video \<Rightarrow> bool" where
  "videos_getMany_filter userId categoryId v =
     (v_visibility v = Public
      \<and> (case userId of None \<Rightarrow> True | Some x \<Rightarrow> x = [] \<or> v_userId v = x)
      \<and> (case categoryId of None \<Rightarrow> True | Some c \<Rightarrow> c = [] \<or> v_categoryId v = Some c))"

definition videos_getMany_data ::
  "db \<Rightarrow> string option \<Rightarrow> string option \<Rightarrow> int cursor option \<Rightarrow> rat \<Rightarrow> video_item list" where
  "videos_getMany_data d userId categoryId cursor limit =
     row_limit (limit + 1)
       (orderBy_desc (\<lambda>r. (v_updatedAt (item_video r), v_id (item_video r)))
         (map (\<lambda>(v, u). video_select d v u)
           (filter (\<lambda>(v, u).
                      videos_getMany_filter userId categoryId v
                      \<and> cursor_where cursor (v_updatedAt v) (v_id v))
             (innerJoin (videos d) (users d) (\<lambda>v u. v_userId v = u_id u)))))"

definition videos_getMany ::
  "db \<Rightarrow> string option \<Rightarrow> string option \<Rightarrow> int cursor option \<Rightarrow> rat
    \<Rightarrow> (error + (video_item, int) page) \<times> stmt list" where
  "videos_getMany d userId categoryId cursor limit =
     (if \<not> (cuid2_nullish categoryId \<and> cursor_schema cursor \<and> limit_schema limit)
      then (Inl BAD_REQUEST, [])
      else (paginate limit
              (\<lambda>r. \<lparr>cursor_id = v_id (item_video r), cursor_key = v_updatedAt (item_video r)\<rparr>)
              (videos_getMany_data d userId categoryId cursor limit),
            [Select Videos (Some (limit + 1))]))"

subsection \<open>getManyTrending\<close>

text \<open>
  The sort key is the view count of the video, the cursor's \<^verbatim>\<open>viewCount\<close> any number
  (\<^verbatim>\<open>z.number()\<close>).
\<close>

definition viewCountSubquery :: "db \<Rightarrow> video \<Rightarrow> nat" where
  "viewCountSubquery d v = count_rows (videoViews d) (\<lambda>w. vv_videoId w = v_id v)"

definition videos_getManyTrending_data :: "db \<Rightarrow> rat cursor option \<Rightarrow> rat \<Rightarrow> video_item list" where
  "videos_getManyTrending_data d cursor limit =
     row_limit (limit + 1)
       (orderBy_desc (\<lambda>r. (viewCount r, v_id (item_video r)))
         (map (\<lambda>(v, u). video_select d v u)
           (filter (\<lambda>(v, u).
                      v_visibility v = Public
                      \<and> cursor_where cursor (of_nat (viewCountSubquery d v)) (v_id v))
             (innerJoin (videos d) (users d) (\<lambda>v u. v_userId v = u_id u)))))"

definition videos_getManyTrending ::
  "db \<Rightarrow> rat cursor option \<Rightarrow> rat \<Rightarrow> (error + (video_item, rat) page) \<times> stmt list" where
  "videos_getManyTrending d cursor limit =
     (if \<not> (cursor_schema cursor \<and> limit_schema limit) then (Inl BAD_REQUEST, [])
      else (paginate limit
              (\<lambda>r. \<lparr>cursor_id = v_id (item_video r), cursor_key = of_nat (viewCount r)\<rparr>)
              (videos_getManyTrending_data d cursor limit),
            [Select Videos (Some (limit + 1))]))"

subsection \<open>getManySubscribed\<close>

text \<open>The common table expression \<^verbatim>\<open>viewer_subscriptions\<close>: the creators the viewer follows.\<close>

definition viewerSubscriptions :: "db \<Rightarrow> string \<Rightarrow> string list" where
  "viewerSubscriptions d userId =
     map s_creatorId (filter (\<lambda>s. s_viewerId s = userId) (subscriptions d))"

definition videos_getManySubscribed_data ::
  "db \<Rightarrow> string \<Rightarrow> int cursor option \<Rightarrow> rat \<Rightarrow> video_item list" where
  "videos_getManySubscribed_data d userId cursor limit =
     row_limit (limit + 1)
       (orderBy_desc (\<lambda>r. (v_updatedAt (item_video r), v_id (item_video r)))
         (map (\<lambda>((v, u), creator). video_select d v u)
           (filter (\<lambda>((v, u), creator).
                      v_visibility v = Public \<and> cursor_where cursor (v_updatedAt v) (v_id v))
             (innerJoin
               (innerJoin (videos d) (users d) (\<lambda>v u. v_userId v = u_id u))
               (viewerSubscriptions d userId)
               (\<lambda>(v, u) creator. u_id u = creator)))))"

definition videos_getManySubscribed ::
  "db \<Rightarrow> string \<Rightarrow> int cursor option \<Rightarrow> rat \<Rightarrow> (error + (video_item, int) page) \<times> stmt list" where
  "videos_getManySubscribed d userId cursor limit =
     (if \<not> (cursor_schema cursor \<and> limit_schema limit) then (Inl BAD_REQUEST, [])
      else (paginate limit
              (\<lambda>r. \<lparr>cursor_id = v_id (item_video r), cursor_key = v_updatedAt (item_video r)\<rparr>)
              (videos_getManySubscribed_data d userId cursor limit),
            [Select Videos (Some (limit + 1))]))"

section \<open>The whole of a listing\<close>

text \<open>
  What the two \<^verbatim>\<open>getMany\<close> queries select when the cursor condition and the row cap are
  left out: every row that meets the listing's other conditions, in the listing's order.
\<close>

definition playlists_getMany_listing :: "db \<Rightarrow> string \<Rightarrow> playlist_item list" where
  "playlists_getMany_listing d userId =
     orderBy_desc (\<lambda>r. (p_updatedAt (item_playlist r), p_id (item_playlist r)))
       (map (playlists_getMany_select d)
         (filter (\<lambda>(p, u). p_userId p = userId)
           (innerJoin (playlists d) (users d) (\<lambda>p u. p_userId p = u_id u))))"

definition videos_getMany_listing :: "db \<Rightarrow> string option \<Rightarrow> string option \<Rightarrow> video_item list" where
  "videos_getMany_listing d userId categoryId =
     orderBy_desc (\<lambda>r. (v_updatedAt (item_video r), v_id (item_video r)))
       (map (\<lambda>(v, u). video_select d v u)
         (filter (\<lambda>(v, u). videos_getMany_filter userId categoryId v)
           (innerJoin (videos d) (users d) (\<lambda>v u. v_userId v = u_id u))))"

section \<open>Following the cursors\<close>

text \<open>
  A client reads a listing to its end: it starts with no cursor and calls again with the
  \<^verbatim>\<open>nextCursor\<close> of the page it got, until a page has none. \<open>fetch\<close> is one call of the
  listing at a cursor; the result lists the pages in the order they came. A failed call
  ends the reading without a result, and so does running out of the \<open>n\<close> calls allowed.
\<close>

fun follow_cursors ::
  "nat \<Rightarrow> ('k cursor option \<Rightarrow> error + ('r, 'k) page) \<Rightarrow> 'k cursor option \<Rightarrow> ('r, 'k) page list option" where
  "follow_cursors 0 fetch cursor = None"
| "follow_cursors (Suc n) fetch cursor =
     (case fetch cursor of
        Inl e \<Rightarrow> None
      | Inr pg \<Rightarrow>
          (case nextCursor pg of
             None \<Rightarrow> Some [pg]
           | Some c \<Rightarrow> map_option ((#) pg) (follow_cursors n fetch (Some c))))"

text \<open>The rows of a call's page; a failed call has none.\<close>

definition page_items :: "error + ('r, 'k) page \<Rightarrow> 'r list" where
  "page_items res = (case res of Inl e \<Rightarrow> [] | Inr pg \<Rightarrow> items pg)"

section \<open>A small store\<close>

text \<open>
  Two users; four videos, one of them private, two of them updated at the same instant;
  four playlists, two of the first user's updated at the same instant.
\<close>

definition demo_video :: "string \<Rightarrow> string \<Rightarrow> visibility \<Rightarrow> int \<Rightarrow> video" where
  "demo_video i owner vis t =
     \<lparr>v_id = i, v_userId = owner, v_categoryId = None, v_visibility = vis,
      v_thumbnailUrl = None, v_updatedAt = t\<rparr>"

definition demo_playlist :: "string \<Rightarrow> string \<Rightarrow> int \<Rightarrow> playlist" where
  "demo_playlist i owner t = \<lparr>p_id = i, p_userId = owner, p_name = ''list'', p_updatedAt = t\<rparr>"

definition demo :: db where
  "demo =
     \<lparr>users = [\<lparr>u_id = ''u1''\<rparr>, \<lparr>u_id = ''u2''\<rparr>],
      videos =
        [demo_video ''va'' ''u1'' Public 1, demo_video ''vb'' ''u2'' Public 2,
         demo_video ''vc'' ''u2'' Private 3, demo_video ''vd'' ''u2'' Public 2],
      playlists =
        [demo_playlist ''pa'' ''u1'' 5, demo_playlist ''pb'' ''u1'' 5,
         demo_playlist ''pc'' ''u1'' 7, demo_playlist ''pd'' ''u2'' 9],
      playlistVideos =
        [\<lparr>pv_playlistId = ''pa'', pv_videoId = ''va'', pv_updatedAt = 1\<rparr>,
         \<lparr>pv_playlistId = ''pa'', pv_videoId = ''vc'', pv_updatedAt = 2\<rparr>,
         \<lparr>pv_playlistId = ''pd'', pv_videoId = ''vb'', pv_updatedAt = 3\<rparr>],
      videoViews =
        [\<lparr>vv_userId = ''u1'', vv_videoId = ''va'', vv_updatedAt = 20\<rparr>,
         \<lparr>vv_userId = ''u1'', vv_videoId = ''vb'', vv_updatedAt = 10\<rparr>,
         \<lparr>vv_userId = ''u1'', vv_videoId = ''vc'', vv_updatedAt = 30\<rparr>,
         \<lparr>vv_userId = ''u2'', vv_videoId = ''va'', vv_updatedAt = 5\<rparr>],
      videoReactions =
        [\<lparr>vr_userId = ''u1'', vr_videoId = ''va'', vr_type = Like, vr_createdAt = 3\<rparr>,
         \<lparr>vr_userId = ''u1'', vr_videoId = ''vc'', vr_type = Like, vr_createdAt = 4\<rparr>,
         \<lparr>vr_userId = ''u1'', vr_videoId = ''vb'', vr_type = Dislike, vr_createdAt = 5\<rparr>],
      subscriptions = [\<lparr>s_viewerId = ''u1'', s_creatorId = ''u2''\<rparr>]\<rparr>"

section \<open>Facts about the query primitives\<close>

lemma set_row_limit: "set (row_limit c rows) \<subseteq> set rows"
  by (auto simp: row_limit_def dest: in_set_takeD)

lemma set_orderBy_desc: "set (orderBy_desc k rows) = set rows"
  by (simp add: orderBy_desc_def)

lemma set_page_items_paginate: "set (page_items (paginate l mk data)) \<subseteq> set data"
  by (auto simp: page_items_def paginate_def Let_def dest: in_set_butlastD)

lemma page_items_Inl: "page_items (Inl e) = []"
  by (simp add: page_items_def)

lemma paginate_not_BAD_REQUEST: "paginate l mk data \<noteq> Inl BAD_REQUEST"
  by (simp add: paginate_def Let_def)

lemma half_not_int: "(5 / 2 :: rat) \<notin> \<int>"
proof
  assume "(5 / 2 :: rat) \<in> \<int>"
  then obtain z :: int where "(5 / 2 :: rat) = of_int z"
    by (auto elim: Ints_cases)
  then have "(of_int (2 * z) :: rat) = of_int 5"
    by simp
  then have "2 * z = 5"
    by (simp only: of_int_eq_iff)
  then show False
    by presburger
qed

section \<open>Validation of the limit\<close>

text \<open>
  C5, as amended. Every listing rejects a limit below 1 or above 100 (so 0 and 101) as a
  bad request and sends no statement to the store; with the other inputs well-formed, a
  limit from 1 to 100 (so 1 and 100) is not rejected and a statement is sent. The accepted
  limit is any number from 1 to 100, whole or not.
\<close>

theorem limit_bounds_checked:
  "(\<not> (1 \<le> limit \<and> limit \<le> 100) \<longrightarrow>
      videos_getMany d u cat c limit = (Inl BAD_REQUEST, [])
      \<and> videos_getManyTrending d c' limit = (Inl BAD_REQUEST, [])
      \<and> videos_getManySubscribed d me c limit = (Inl BAD_REQUEST, [])
      \<and> playlists_getMany d me c limit = (Inl BAD_REQUEST, [])
      \<and> playlists_getManyForVideo d me vid c limit = (Inl BAD_REQUEST, [])
      \<and> playlists_getHistory d me c limit = (Inl BAD_REQUEST, [])
      \<and> playlists_getLiked d me c limit = (Inl BAD_REQUEST, [])
      \<and> playlists_getVideos d me pid c limit = (Inl BAD_REQUEST, []))
   \<and> (1 \<le> limit \<and> limit \<le> 100 \<and> cuid2_nullish cat \<and> cursor_schema c \<and> cursor_schema c'
        \<and> cuid2 vid \<and> cuid2 pid \<longrightarrow>
      fst (videos_getMany d u cat c limit) \<noteq> Inl BAD_REQUEST
      \<and> fst (videos_getManyTrending d c' limit) \<noteq> Inl BAD_REQUEST
      \<and> fst (videos_getManySubscribed d me c limit) \<noteq> Inl BAD_REQUEST
      \<and> fst (playlists_getMany d me c limit) \<noteq> Inl BAD_REQUEST
      \<and> fst (playlists_getManyForVideo d me vid c limit) \<noteq> Inl BAD_REQUEST
      \<and> fst (playlists_getHistory d me c limit) \<noteq> Inl BAD_REQUEST
      \<and> fst (playlists_getLiked d me c limit) \<noteq> Inl BAD_REQUEST
      \<and> fst (playlists_getVideos d me pid c limit) \<noteq> Inl BAD_REQUEST
      \<and> snd (videos_getMany d u cat c limit) \<noteq> []
      \<and> snd (videos_getManyTrending d c' limit) \<noteq> []
      \<and> snd (videos_getManySubscribed d me c limit) \<noteq> []
      \<and> snd (playlists_getMany d me c limit) \<noteq> []
      \<and> snd (playlists_getManyForVideo d me vid c limit) \<noteq> []
      \<and> snd (playlists_getHistory d me c limit) \<noteq> []
      \<and> snd (playlists_getLiked d me c limit) \<noteq> []
      \<and> snd (playlists_getVideos d me pid c limit) \<noteq> [])"
  by (simp add: videos_getMany_def videos_getManyTrending_def videos_getManySubscribed_def
      playlists_getMany_def playlists_getManyForVideo_def playlists_getHistory_def
      playlists_getLiked_def playlists_getVideos_def limit_schema_def paginate_not_BAD_REQUEST)

text \<open>C5 at the limits 0, 101, 1 and 100 on the small store.\<close>

theorem limit_bounds_checked_witness:
  "videos_getMany demo None None None 0 = (Inl BAD_REQUEST, [])
   \<and> videos_getManyTrending demo None 0 = (Inl BAD_REQUEST, [])
   \<and> playlists_getMany demo ''u1'' None 0 = (Inl BAD_REQUEST, [])
   \<and> playlists_getHistory demo ''u1'' None 0 = (Inl BAD_REQUEST, [])
   \<and> videos_getMany demo None None None 101 = (Inl BAD_REQUEST, [])
   \<and> videos_getManyTrending demo None 101 = (Inl BAD_REQUEST, [])
   \<and> playlists_getMany demo ''u1'' None 101 = (Inl BAD_REQUEST, [])
   \<and> playlists_getHistory demo ''u1'' None 101 = (Inl BAD_REQUEST, [])
   \<and> fst (videos_getMany demo None None None 1) \<noteq> Inl BAD_REQUEST
   \<and> fst (videos_getManyTrending demo None 1) \<noteq> Inl BAD_REQUEST
   \<and> fst (playlists_getMany demo ''u1'' None 1) \<noteq> Inl BAD_REQUEST
   \<and> fst (playlists_getVideos demo ''u1'' ''pa'' None 1) \<noteq> Inl BAD_REQUEST
   \<and> fst (videos_getMany demo None None None 100) \<noteq> Inl BAD_REQUEST
   \<and> fst (videos_getManyTrending demo None 100) \<noteq> Inl BAD_REQUEST
   \<and> fst (playlists_getMany demo ''u1'' None 100) \<noteq> Inl BAD_REQUEST
   \<and> fst (playlists_getVideos demo ''u1'' ''pa'' None 100) \<noteq> Inl BAD_REQUEST"
proof -
  have ok: "cuid2_nullish None" "cursor_schema (None :: int cursor option)"
    "cursor_schema (None :: rat cursor option)" "cuid2 ''va''" "cuid2 ''pa''"
    by (simp_all add: cuid2_nullish_def cursor_schema_def cuid2_def)
  show ?thesis
    using ok
      limit_bounds_checked [where limit = 0 and d = demo and u = None and cat = None and c = None
        and c' = None and me = "''u1''" and vid = "''va''" and pid = "''pa''"]
      limit_bounds_checked [where limit = 101 and d = demo and u = None and cat = None and c = None
        and c' = None and me = "''u1''" and vid = "''va''" and pid = "''pa''"]
      limit_bounds_checked [where limit = 1 and d = demo and u = None and cat = None and c = None
        and c' = None and me = "''u1''" and vid = "''va''" and pid = "''pa''"]
      limit_bounds_checked [where limit = 100 and d = demo and u = None and cat = None and c = None
        and c' = None and me = "''u1''" and vid = "''va''" and pid = "''pa''"]
    by simp
qed

text \<open>
  C5 as stated fails: the limit 5/2 is not an integer, and the playlist listing accepts it
  and queries the store.
\<close>

theorem limit_fraction_accepted_counterexample:
  "(5 / 2 :: rat) \<notin> \<int>
   \<and> fst (playlists_getMany demo ''u1'' None (5 / 2)) \<noteq> Inl BAD_REQUEST
   \<and> snd (playlists_getMany demo ''u1'' None (5 / 2)) = [Select Playlists (Some (7 / 2))]"
  using half_not_int
  by (simp add: playlists_getMany_def cursor_schema_def limit_schema_def paginate_not_BAD_REQUEST)

text \<open>
  C9. The limit 5/2, which is not an integer, passes the schema, and the video listing and
  the playlist listing run their query with the row cap 5/2 + 1 = 7/2.
\<close>

theorem fractional_limit_reaches_store:
  "limit_schema (5 / 2) \<and> (5 / 2 :: rat) \<notin> \<int>
   \<and> videos_getMany d userId None None (5 / 2) =
       (paginate (5 / 2)
          (\<lambda>r. \<lparr>cursor_id = v_id (item_video r), cursor_key = v_updatedAt (item_video r)\<rparr>)
          (videos_getMany_data d userId None None (5 / 2)),
        [Select Videos (Some (7 / 2))])
   \<and> playlists_getMany d me None (5 / 2) =
       (paginate (5 / 2)
          (\<lambda>r. \<lparr>cursor_id = p_id (item_playlist r), cursor_key = p_updatedAt (item_playlist r)\<rparr>)
          (playlists_getMany_data d me None (5 / 2)),
        [Select Playlists (Some (7 / 2))])"
  using half_not_int
  by (simp add: videos_getMany_def playlists_getMany_def cursor_schema_def limit_schema_def
      cuid2_nullish_def)

section \<open>Joins, empty reads and whole limits\<close>

lemma set_innerJoin: "set (innerJoin xs ys on) = {(x, y). x \<in> set xs \<and> y \<in> set ys \<and> on x y}"
  by (auto simp: innerJoin_def)

lemma orderBy_desc_Nil: "orderBy_desc k [] = []"
  by (simp add: orderBy_desc_def)

lemma row_limit_Nil: "row_limit c [] = []"
  by (simp add: row_limit_def)

lemma paginate_Nil: "1 \<le> l \<Longrightarrow> paginate l mk [] = Inr \<lparr>items = [], nextCursor = None\<rparr>"
  by (simp add: paginate_def)

lemma row_limit_of_nat: "row_limit (of_nat L + 1) rows = take (Suc L) rows"
proof -
  have "\<lfloor>(of_nat L :: rat) + 1\<rfloor> = int L + 1"
    by (metis floor_add_int floor_of_nat of_int_1 of_int_of_nat_eq)
  moreover have "nat (int L + 1) = Suc L"
    by simp
  ultimately show ?thesis
    by (simp only: row_limit_def)
qed

lemma paginate_more:
  assumes "length data = Suc L" "1 \<le> L"
  shows "paginate (of_nat L) mk data =
           Inr \<lparr>items = take L data, nextCursor = Some (mk (last (take L data)))\<rparr>"
proof -
  have "butlast data = take L data"
    using assms by (simp add: butlast_conv_take)
  moreover have "take L data \<noteq> []"
    using assms by auto
  ultimately show ?thesis
    using assms by (simp add: paginate_def Let_def)
qed

lemma paginate_last:
  assumes "length data \<le> L"
  shows "paginate (of_nat L) mk data = Inr \<lparr>items = data, nextCursor = None\<rparr>"
  using assms by (simp add: paginate_def)

lemma paginate_Inr:
  assumes "1 \<le> l"
  shows "\<exists>pg. paginate l mk data = Inr pg"
proof (cases "of_nat (length data) > l")
  case True
  then have "(1 :: rat) < of_nat (length data)"
    using assms by simp
  then have "1 < length data"
    by (metis of_nat_1 of_nat_less_iff)
  then have "butlast data \<noteq> []"
    by (cases data) (auto split: if_splits)
  then show ?thesis
    using True by (simp add: paginate_def Let_def)
next
  case False
  then show ?thesis
    by (simp add: paginate_def)
qed

section \<open>The page is the read, trimmed\<close>

text \<open>
  C4. A call of the playlist listing with a whole limit L from 1 to 100 sends one select,
  capped at L + 1 rows, so the read has at most L + 1 rows. When the read has more than L
  rows the page keeps exactly its first L rows and the next cursor is the id and the
  update time of the last row kept; otherwise the page keeps all rows and has no next
  cursor. So a page never has more than L rows, and has exactly L when it has a next
  cursor.
\<close>

theorem page_trimmed_to_limit:
  assumes "1 \<le> L" and "L \<le> 100" and "cursor_schema c"
  shows "snd (playlists_getMany d me c (of_nat L)) = [Select Playlists (Some (of_nat L + 1))]
    \<and> length (playlists_getMany_data d me c (of_nat L)) \<le> L + 1
    \<and> (L < length (playlists_getMany_data d me c (of_nat L)) \<longrightarrow>
         fst (playlists_getMany d me c (of_nat L)) =
           Inr \<lparr>items = take L (playlists_getMany_data d me c (of_nat L)),
                nextCursor = Some
                  \<lparr>cursor_id = p_id (item_playlist (last (take L (playlists_getMany_data d me c (of_nat L))))),
                   cursor_key = p_updatedAt (item_playlist (last (take L (playlists_getMany_data d me c (of_nat L)))))\<rparr>\<rparr>)
    \<and> (length (playlists_getMany_data d me c (of_nat L)) \<le> L \<longrightarrow>
         fst (playlists_getMany d me c (of_nat L)) =
           Inr \<lparr>items = playlists_getMany_data d me c (of_nat L), nextCursor = None\<rparr>)
    \<and> (\<exists>pg. fst (playlists_getMany d me c (of_nat L)) = Inr pg
           \<and> length (items pg) \<le> L
           \<and> (nextCursor pg \<noteq> None \<longrightarrow> length (items pg) = L))"
proof -
  let ?data = "playlists_getMany_data d me c (of_nat L)"
  let ?mk = "\<lambda>r. \<lparr>cursor_id = p_id (item_playlist r), cursor_key = p_updatedAt (item_playlist r)\<rparr>"
  have valid: "limit_schema (of_nat L)"
    using assms by (simp add: limit_schema_def)
  have res: "playlists_getMany d me c (of_nat L) =
      (paginate (of_nat L) ?mk ?data, [Select Playlists (Some (of_nat L + 1))])"
    using valid assms(3) by (simp add: playlists_getMany_def)
  have len: "length ?data \<le> L + 1"
    unfolding playlists_getMany_data_def row_limit_of_nat by simp
  have more: "fst (playlists_getMany d me c (of_nat L)) =
      Inr \<lparr>items = take L ?data, nextCursor = Some (?mk (last (take L ?data)))\<rparr>"
    if "L < length ?data"
  proof -
    have "length ?data = Suc L"
      using that len by simp
    then show ?thesis
      using assms(1) by (simp add: res paginate_more)
  qed
  have final: "fst (playlists_getMany d me c (of_nat L)) = Inr \<lparr>items = ?data, nextCursor = None\<rparr>"
    if "length ?data \<le> L"
    using that by (simp add: res paginate_last)
  have "\<exists>pg. fst (playlists_getMany d me c (of_nat L)) = Inr pg
           \<and> length (items pg) \<le> L
           \<and> (nextCursor pg \<noteq> None \<longrightarrow> length (items pg) = L)"
  proof (cases "L < length ?data")
    case True
    then show ?thesis
      using more [OF True] by simp
  next
    case False
    then show ?thesis
      using final by simp
  qed
  then show ?thesis
    using res len more final by simp
qed

text \<open>
  C4 on the small store with L = 2: the read has three rows, the page the first two.
\<close>

theorem page_trimmed_to_limit_witness:
  "length (playlists_getMany_data demo ''u1'' None (of_nat 2)) = 3
   \<and> map (p_id \<circ> item_playlist) (page_items (fst (playlists_getMany demo ''u1'' None (of_nat 2)))) = [''pc'', ''pb'']
   \<and> fst (playlists_getMany demo ''u1'' None (of_nat 2)) =
       Inr \<lparr>items = take 2 (playlists_getMany_data demo ''u1'' None (of_nat 2)),
            nextCursor = Some \<lparr>cursor_id = ''pb'', cursor_key = 5\<rparr>\<rparr>"
proof -
  have len: "length (playlists_getMany_data demo ''u1'' None (of_nat 2)) = 3"
    by code_simp
  have ids: "map (p_id \<circ> item_playlist) (take 2 (playlists_getMany_data demo ''u1'' None (of_nat 2))) = [''pc'', ''pb'']"
    by code_simp
  have l: "p_id (item_playlist (last (take 2 (playlists_getMany_data demo ''u1'' None (of_nat 2))))) = ''pb''"
    "p_updatedAt (item_playlist (last (take 2 (playlists_getMany_data demo ''u1'' None (of_nat 2))))) = 5"
    by code_simp+
  have c: "cursor_schema (None :: int cursor option)"
    by (simp add: cursor_schema_def)
  show ?thesis
    using page_trimmed_to_limit [where L = 2 and c = None and d = demo and me = "''u1''", OF _ _ c] len ids l
    by (simp add: page_items_def)
qed


section \<open>Empty listings\<close>

lemma filter_innerJoin_empty:
  assumes "filter P xs = []"
  shows "filter (\<lambda>(x, y). P x \<and> Q x y) (innerJoin xs ys on) = []"
  using assms by (auto simp: filter_empty_conv set_innerJoin)

text \<open>
  C7. With well-formed inputs (so a limit from 1 to 100), the playlist listing of a user
  who has no playlist, and the video listing when no video meets its conditions, succeed
  with no items and no next cursor. An empty table is the special case.
\<close>

theorem empty_listing:
  "(cursor_schema c \<and> limit_schema limit \<and> filter (\<lambda>p. p_userId p = me) (playlists d) = [] \<longrightarrow>
      fst (playlists_getMany d me c limit) = Inr \<lparr>items = [], nextCursor = None\<rparr>)
   \<and> (cuid2_nullish cat \<and> cursor_schema c \<and> limit_schema limit
       \<and> filter (videos_getMany_filter u cat) (videos d) = [] \<longrightarrow>
      fst (videos_getMany d u cat c limit) = Inr \<lparr>items = [], nextCursor = None\<rparr>)"
proof (intro conjI impI)
  assume a: "cursor_schema c \<and> limit_schema limit \<and> filter (\<lambda>p. p_userId p = me) (playlists d) = []"
  then have "playlists_getMany_data d me c limit = []"
    unfolding playlists_getMany_data_def
    by (simp add: filter_innerJoin_empty orderBy_desc_Nil row_limit_Nil)
  then show "fst (playlists_getMany d me c limit) = Inr \<lparr>items = [], nextCursor = None\<rparr>"
    using a by (simp add: playlists_getMany_def limit_schema_def paginate_Nil)
next
  assume a: "cuid2_nullish cat \<and> cursor_schema c \<and> limit_schema limit
       \<and> filter (videos_getMany_filter u cat) (videos d) = []"
  then have "videos_getMany_data d u cat c limit = []"
    unfolding videos_getMany_data_def
    by (simp add: filter_innerJoin_empty orderBy_desc_Nil row_limit_Nil)
  then show "fst (videos_getMany d u cat c limit) = Inr \<lparr>items = [], nextCursor = None\<rparr>"
    using a by (simp add: videos_getMany_def limit_schema_def paginate_Nil)
qed

text \<open>
  C7 on the small store: with the table emptied, and with a user who owns nothing.
\<close>

theorem empty_listing_witness:
  "fst (playlists_getMany (demo\<lparr>playlists := []\<rparr>) ''u1'' None 3) = Inr \<lparr>items = [], nextCursor = None\<rparr>
   \<and> fst (playlists_getMany demo ''u3'' None 3) = Inr \<lparr>items = [], nextCursor = None\<rparr>
   \<and> fst (videos_getMany (demo\<lparr>videos := []\<rparr>) None None None 3) = Inr \<lparr>items = [], nextCursor = None\<rparr>
   \<and> fst (videos_getMany demo (Some ''u3'') None None 3) = Inr \<lparr>items = [], nextCursor = None\<rparr>"
proof -
  have ok: "cuid2_nullish None" "cursor_schema (None :: int cursor option)" "limit_schema 3"
    by (simp_all add: cuid2_nullish_def cursor_schema_def limit_schema_def)
  have none: "filter (\<lambda>p. p_userId p = ''u1'') (playlists (demo\<lparr>playlists := []\<rparr>)) = []"
    "filter (\<lambda>p. p_userId p = ''u3'') (playlists demo) = []"
    "filter (videos_getMany_filter None None) (videos (demo\<lparr>videos := []\<rparr>)) = []"
    "filter (videos_getMany_filter (Some ''u3'') None) (videos demo) = []"
    by (simp_all add: demo_def demo_playlist_def demo_video_def videos_getMany_filter_def)
  show ?thesis
    using ok none
      empty_listing [where c = None and limit = 3 and me = "''u1''" and d = "demo\<lparr>playlists := []\<rparr>"
        and cat = None and u = None]
      empty_listing [where c = None and limit = 3 and me = "''u3''" and d = demo
        and cat = None and u = "Some ''u3''"]
      empty_listing [where c = None and limit = 3 and me = "''u3''" and d = "demo\<lparr>videos := []\<rparr>"
        and cat = None and u = None]
    by simp
qed

section \<open>getVideos and the playlist's owner\<close>

text \<open>
  C6. With well-formed inputs, getVideos fails with NOT_FOUND exactly when no playlist has
  the given id and the caller as owner. It has then sent only the select that looks the
  playlist up, not the page's select. When the playlist exists, both selects are sent and
  the call returns a page.
\<close>

theorem getVideos_not_found:
  assumes "cuid2 pid" and "cursor_schema c" and "limit_schema limit"
  shows "(fst (playlists_getVideos d me pid c limit) = Inl NOT_FOUND
           \<longleftrightarrow> \<not> list_ex (\<lambda>p. p_id p = pid \<and> p_userId p = me) (playlists d))
    \<and> (\<not> list_ex (\<lambda>p. p_id p = pid \<and> p_userId p = me) (playlists d) \<longrightarrow>
         snd (playlists_getVideos d me pid c limit) = [Select Playlists None])
    \<and> (list_ex (\<lambda>p. p_id p = pid \<and> p_userId p = me) (playlists d) \<longrightarrow>
         snd (playlists_getVideos d me pid c limit) =
           [Select Playlists None, Select Videos (Some (limit + 1))]
         \<and> (\<exists>pg. fst (playlists_getVideos d me pid c limit) = Inr pg))"
proof -
  let ?mk = "\<lambda>r. \<lparr>cursor_id = v_id (item_video r), cursor_key = v_updatedAt (item_video r)\<rparr>"
  have ex: "list_ex (\<lambda>p. p_id p = pid \<and> p_userId p = me) (playlists d)
      \<longleftrightarrow> filter (\<lambda>p. p_id p = pid \<and> p_userId p = me) (playlists d) \<noteq> []"
    by (simp add: list_ex_iff filter_empty_conv)
  obtain pg where pg: "paginate limit ?mk (playlists_getVideos_data d pid c limit) = Inr pg"
    using paginate_Inr assms(3) unfolding limit_schema_def by blast
  show ?thesis
    using assms pg unfolding ex by (simp add: playlists_getVideos_def)
qed

text \<open>
  C6 on the small store: playlist pd belongs to u2, playlist pa to the caller u1.
\<close>

theorem getVideos_not_found_witness:
  "fst (playlists_getVideos demo ''u1'' ''pd'' None 3) = Inl NOT_FOUND
   \<and> snd (playlists_getVideos demo ''u1'' ''pd'' None 3) = [Select Playlists None]
   \<and> fst (playlists_getVideos demo ''u1'' ''pa'' None 3) \<noteq> Inl NOT_FOUND
   \<and> snd (playlists_getVideos demo ''u1'' ''pa'' None 3) = [Select Playlists None, Select Videos (Some 4)]"
proof -
  have ok: "cuid2 ''pd''" "cuid2 ''pa''" "cursor_schema (None :: int cursor option)" "limit_schema 3"
    by (simp_all add: cuid2_def cursor_schema_def limit_schema_def)
  have own: "\<not> list_ex (\<lambda>p. p_id p = ''pd'' \<and> p_userId p = ''u1'') (playlists demo)"
    "list_ex (\<lambda>p. p_id p = ''pa'' \<and> p_userId p = ''u1'') (playlists demo)"
    by (simp_all add: demo_def demo_playlist_def)
  show ?thesis
    using own
      getVideos_not_found [where pid = "''pd''" and c = None and limit = 3 and d = demo and me = "''u1''",
        OF ok(1) ok(3) ok(4)]
      getVideos_not_found [where pid = "''pa''" and c = None and limit = 3 and d = demo and me = "''u1''",
        OF ok(2) ok(3) ok(4)]
    by simp
qed

section \<open>Only public videos are listed\<close>

lemma videos_getMany_public:
  assumes "r \<in> set (page_items (fst (videos_getMany d u cat c limit)))"
  shows "v_visibility (item_video r) = Public"
proof -
  have "r \<in> set (videos_getMany_data d u cat c limit)"
    using assms set_page_items_paginate
    by (fastforce simp: videos_getMany_def page_items_Inl split: if_splits)
  then show ?thesis
    using set_row_limit unfolding videos_getMany_data_def
    by (fastforce simp: set_orderBy_desc videos_getMany_filter_def video_select_def)
qed

lemma videos_getManyTrending_public:
  assumes "r \<in> set (page_items (fst (videos_getManyTrending d c limit)))"
  shows "v_visibility (item_video r) = Public"
proof -
  have "r \<in> set (videos_getManyTrending_data d c limit)"
    using assms set_page_items_paginate
    by (fastforce simp: videos_getManyTrending_def page_items_Inl split: if_splits)
  then show ?thesis
    using set_row_limit unfolding videos_getManyTrending_data_def
    by (fastforce simp: set_orderBy_desc video_select_def)
qed

lemma videos_getManySubscribed_public:
  assumes "r \<in> set (page_items (fst (videos_getManySubscribed d me c limit)))"
  shows "v_visibility (item_video r) = Public"
proof -
  have "r \<in> set (videos_getManySubscribed_data d me c limit)"
    using assms set_page_items_paginate
    by (fastforce simp: videos_getManySubscribed_def page_items_Inl split: if_splits)
  then show ?thesis
    using set_row_limit unfolding videos_getManySubscribed_data_def
    by (fastforce simp: set_orderBy_desc video_select_def)
qed

lemma playlists_getHistory_public:
  assumes "r \<in> set (page_items (fst (playlists_getHistory d me c limit)))"
  shows "v_visibility (item_video r) = Public"
proof -
  have "r \<in> set (playlists_getHistory_data d me c limit)"
    using assms set_page_items_paginate
    by (fastforce simp: playlists_getHistory_def page_items_Inl split: if_splits)
  then show ?thesis
    using set_row_limit unfolding playlists_getHistory_data_def
    by (fastforce simp: set_orderBy_desc video_select_def video_item.defs)
qed

lemma playlists_getLiked_public:
  assumes "r \<in> set (page_items (fst (playlists_getLiked d me c limit)))"
  shows "v_visibility (item_video r) = Public"
proof -
  have "r \<in> set (playlists_getLiked_data d me c limit)"
    using assms set_page_items_paginate
    by (fastforce simp: playlists_getLiked_def page_items_Inl split: if_splits)
  then show ?thesis
    using set_row_limit unfolding playlists_getLiked_data_def
    by (fastforce simp: set_orderBy_desc video_select_def video_item.defs)
qed

lemma playlists_getVideos_public:
  assumes "r \<in> set (page_items (fst (playlists_getVideos d me pid c limit)))"
  shows "v_visibility (item_video r) = Public"
proof -
  have "r \<in> set (playlists_getVideos_data d pid c limit)"
    using assms set_page_items_paginate
    by (fastforce simp: playlists_getVideos_def page_items_Inl split: if_splits)
  then show ?thesis
    using set_row_limit unfolding playlists_getVideos_data_def
    by (fastforce simp: set_orderBy_desc video_select_def)
qed

text \<open>
  C8. Every row of a page of the six video listings (general, trending, subscribed,
  history, liked, playlist contents) is a public video.
\<close>

theorem listed_videos_public:
  "(\<forall>r \<in> set (page_items (fst (videos_getMany d u cat c limit))). v_visibility (item_video r) = Public)
   \<and> (\<forall>r \<in> set (page_items (fst (videos_getManyTrending d c' limit))). v_visibility (item_video r) = Public)
   \<and> (\<forall>r \<in> set (page_items (fst (videos_getManySubscribed d me c limit))). v_visibility (item_video r) = Public)
   \<and> (\<forall>r \<in> set (page_items (fst (playlists_getHistory d me c limit))). v_visibility (item_video r) = Public)
   \<and> (\<forall>r \<in> set (page_items (fst (playlists_getLiked d me c limit))). v_visibility (item_video r) = Public)
   \<and> (\<forall>r \<in> set (page_items (fst (playlists_getVideos d me pid c limit))). v_visibility (item_video r) = Public)"
  by (intro conjI ballI)
    (erule videos_getMany_public videos_getManyTrending_public videos_getManySubscribed_public
      playlists_getHistory_public playlists_getLiked_public playlists_getVideos_public)+

text \<open>
  C8 on the small store: video vc is private, and the caller has viewed it, liked it and
  put it in playlist pa; no listing returns it.
\<close>

theorem listed_videos_public_witness:
  "list_ex (\<lambda>v. v_visibility v = Private) (videos demo)
   \<and> list_ex (\<lambda>w. vv_userId w = ''u1'' \<and> vv_videoId w = ''vc'') (videoViews demo)
   \<and> list_ex (\<lambda>r. vr_userId r = ''u1'' \<and> vr_videoId r = ''vc'' \<and> vr_type r = Like) (videoReactions demo)
   \<and> list_ex (\<lambda>pv. pv_playlistId pv = ''pa'' \<and> pv_videoId pv = ''vc'') (playlistVideos demo)
   \<and> length (page_items (fst (videos_getMany demo None None None 10))) = 3
   \<and> list_all (\<lambda>r. v_visibility (item_video r) = Public) (page_items (fst (videos_getMany demo None None None 10)))
   \<and> length (page_items (fst (videos_getManyTrending demo None 10))) = 3
   \<and> list_all (\<lambda>r. v_visibility (item_video r) = Public) (page_items (fst (videos_getManyTrending demo None 10)))
   \<and> length (page_items (fst (videos_getManySubscribed demo ''u1'' None 10))) = 2
   \<and> list_all (\<lambda>r. v_visibility (item_video r) = Public) (page_items (fst (videos_getManySubscribed demo ''u1'' None 10)))
   \<and> length (page_items (fst (playlists_getHistory demo ''u1'' None 10))) = 2
   \<and> list_all (\<lambda>r. v_visibility (item_video r) = Public) (page_items (fst (playlists_getHistory demo ''u1'' None 10)))
   \<and> length (page_items (fst (playlists_getLiked demo ''u1'' None 10))) = 1
   \<and> list_all (\<lambda>r. v_visibility (item_video r) = Public) (page_items (fst (playlists_getLiked demo ''u1'' None 10)))
   \<and> length (page_items (fst (playlists_getVideos demo ''u1'' ''pa'' None 10))) = 1
   \<and> list_all (\<lambda>r. v_visibility (item_video r) = Public) (page_items (fst (playlists_getVideos demo ''u1'' ''pa'' None 10)))"
proof -
  have src: "list_ex (\<lambda>v. v_visibility v = Private) (videos demo)"
    "list_ex (\<lambda>w. vv_userId w = ''u1'' \<and> vv_videoId w = ''vc'') (videoViews demo)"
    "list_ex (\<lambda>r. vr_userId r = ''u1'' \<and> vr_videoId r = ''vc'' \<and> vr_type r = Like) (videoReactions demo)"
    "list_ex (\<lambda>pv. pv_playlistId pv = ''pa'' \<and> pv_videoId pv = ''vc'') (playlistVideos demo)"
    by (simp_all add: demo_def demo_video_def)
  have len: "length (page_items (fst (videos_getMany demo None None None 10))) = 3"
    "length (page_items (fst (videos_getManyTrending demo None 10))) = 3"
    "length (page_items (fst (videos_getManySubscribed demo ''u1'' None 10))) = 2"
    "length (page_items (fst (playlists_getHistory demo ''u1'' None 10))) = 2"
    "length (page_items (fst (playlists_getLiked demo ''u1'' None 10))) = 1"
    "length (page_items (fst (playlists_getVideos demo ''u1'' ''pa'' None 10))) = 1"
    by code_simp+
  show ?thesis
    using src len
      listed_videos_public [where d = demo and u = None and cat = None and c = None and c' = None
        and limit = 10 and me = "''u1''" and pid = "''pa''"]
    by (simp add: list_all_iff)
qed

section \<open>addVideo and pairs already present\<close>

text \<open>
  C10, as amended. addVideo checks, in this order: the ids are well-formed (else
  BAD_REQUEST, nothing sent), the caller owns the playlist (else NOT_FOUND after the
  playlist lookup), the video exists (else NOT_FOUND after the video lookup), the pair is
  not yet in the playlist (else CONFLICT after the pair lookup). So with well-formed ids, a
  playlist the caller owns and an existing video, a pair already in the playlist gives
  CONFLICT; a playlist the caller does not own, or a missing video, gives NOT_FOUND
  instead. Whenever the pair is already in the playlist the call fails, leaves the store as
  it was and sends no insert. So addVideo never makes a pair occur twice: pairs that were
  distinct before the call are distinct after it.
\<close>

theorem addVideo_existing_pair:
  "(\<not> (cuid2 pid \<and> cuid2 vid) \<longrightarrow>
      playlists_addVideo d now me pid vid = (Inl BAD_REQUEST, d, []))
   \<and> (cuid2 pid \<and> cuid2 vid
       \<and> \<not> list_ex (\<lambda>p. p_id p = pid \<and> p_userId p = me) (playlists d) \<longrightarrow>
      playlists_addVideo d now me pid vid = (Inl NOT_FOUND, d, [Select Playlists None]))
   \<and> (cuid2 pid \<and> cuid2 vid
       \<and> list_ex (\<lambda>p. p_id p = pid \<and> p_userId p = me) (playlists d)
       \<and> \<not> list_ex (\<lambda>v. v_id v = vid) (videos d) \<longrightarrow>
      playlists_addVideo d now me pid vid =
        (Inl NOT_FOUND, d, [Select Playlists None, Select Videos None]))
   \<and> (cuid2 pid \<and> cuid2 vid
       \<and> list_ex (\<lambda>p. p_id p = pid \<and> p_userId p = me) (playlists d)
       \<and> list_ex (\<lambda>v. v_id v = vid) (videos d)
       \<and> list_ex (\<lambda>pv. pv_playlistId pv = pid \<and> pv_videoId pv = vid) (playlistVideos d) \<longrightarrow>
      playlists_addVideo d now me pid vid =
        (Inl CONFLICT, d, [Select Playlists None, Select Videos None, Select PlaylistVideos None]))
   \<and> (list_ex (\<lambda>pv. pv_playlistId pv = pid \<and> pv_videoId pv = vid) (playlistVideos d) \<longrightarrow>
      (fst (playlists_addVideo d now me pid vid) = Inl BAD_REQUEST
        \<or> fst (playlists_addVideo d now me pid vid) = Inl NOT_FOUND
        \<or> fst (playlists_addVideo d now me pid vid) = Inl CONFLICT)
      \<and> fst (snd (playlists_addVideo d now me pid vid)) = d
      \<and> Insert PlaylistVideos \<notin> set (snd (snd (playlists_addVideo d now me pid vid))))
   \<and> (distinct (map (\<lambda>pv. (pv_playlistId pv, pv_videoId pv)) (playlistVideos d)) \<longrightarrow>
      distinct (map (\<lambda>pv. (pv_playlistId pv, pv_videoId pv))
        (playlistVideos (fst (snd (playlists_addVideo d now me pid vid))))))"
proof -
  have pair: "list_ex (\<lambda>pv. pv_playlistId pv = pid \<and> pv_videoId pv = vid) (playlistVideos d)
      \<longleftrightarrow> filter (\<lambda>pv. pv_playlistId pv = pid \<and> pv_videoId pv = vid) (playlistVideos d) \<noteq> []"
    by (simp add: list_ex_iff filter_empty_conv)
  have own: "list_ex (\<lambda>p. p_id p = pid \<and> p_userId p = me) (playlists d)
      \<longleftrightarrow> filter (\<lambda>p. p_id p = pid \<and> p_userId p = me) (playlists d) \<noteq> []"
    by (simp add: list_ex_iff filter_empty_conv)
  have vid: "list_ex (\<lambda>v. v_id v = vid) (videos d) \<longleftrightarrow> filter (\<lambda>v. v_id v = vid) (videos d) \<noteq> []"
    by (simp add: list_ex_iff filter_empty_conv)
  have malformed: "\<not> (cuid2 pid \<and> cuid2 vid) \<longrightarrow>
      playlists_addVideo d now me pid vid = (Inl BAD_REQUEST, d, [])"
    by (simp add: playlists_addVideo_def)
  have foreign: "cuid2 pid \<and> cuid2 vid
       \<and> \<not> list_ex (\<lambda>p. p_id p = pid \<and> p_userId p = me) (playlists d) \<longrightarrow>
      playlists_addVideo d now me pid vid = (Inl NOT_FOUND, d, [Select Playlists None])"
    unfolding own by (simp add: playlists_addVideo_def)
  have missing: "cuid2 pid \<and> cuid2 vid
       \<and> list_ex (\<lambda>p. p_id p = pid \<and> p_userId p = me) (playlists d)
       \<and> \<not> list_ex (\<lambda>v. v_id v = vid) (videos d) \<longrightarrow>
      playlists_addVideo d now me pid vid =
        (Inl NOT_FOUND, d, [Select Playlists None, Select Videos None])"
    unfolding own vid by (simp add: playlists_addVideo_def)
  have conflict: "cuid2 pid \<and> cuid2 vid
       \<and> list_ex (\<lambda>p. p_id p = pid \<and> p_userId p = me) (playlists d)
       \<and> list_ex (\<lambda>v. v_id v = vid) (videos d)
       \<and> list_ex (\<lambda>pv. pv_playlistId pv = pid \<and> pv_videoId pv = vid) (playlistVideos d) \<longrightarrow>
      playlists_addVideo d now me pid vid =
        (Inl CONFLICT, d, [Select Playlists None, Select Videos None, Select PlaylistVideos None])"
    unfolding own vid pair by (simp add: playlists_addVideo_def)
  have fails: "list_ex (\<lambda>pv. pv_playlistId pv = pid \<and> pv_videoId pv = vid) (playlistVideos d) \<longrightarrow>
      (fst (playlists_addVideo d now me pid vid) = Inl BAD_REQUEST
        \<or> fst (playlists_addVideo d now me pid vid) = Inl NOT_FOUND
        \<or> fst (playlists_addVideo d now me pid vid) = Inl CONFLICT)
      \<and> fst (snd (playlists_addVideo d now me pid vid)) = d
      \<and> Insert PlaylistVideos \<notin> set (snd (snd (playlists_addVideo d now me pid vid)))"
    unfolding pair by (simp add: playlists_addVideo_def)
  have keeps: "distinct (map (\<lambda>pv. (pv_playlistId pv, pv_videoId pv))
        (playlistVideos (fst (snd (playlists_addVideo d now me pid vid)))))"
    if dist: "distinct (map (\<lambda>pv. (pv_playlistId pv, pv_videoId pv)) (playlistVideos d))"
  proof (cases "filter (\<lambda>pv. pv_playlistId pv = pid \<and> pv_videoId pv = vid) (playlistVideos d) = []")
    case True
    then have "(pid, vid) \<notin> (\<lambda>pv. (pv_playlistId pv, pv_videoId pv)) ` set (playlistVideos d)"
      by (auto simp: filter_empty_conv)
    then show ?thesis
      using dist by (simp add: playlists_addVideo_def insert_playlistVideo_def)
  next
    case False
    then show ?thesis
      using dist by (simp add: playlists_addVideo_def)
  qed
  show ?thesis
    using malformed foreign missing conflict fails keeps by (intro conjI impI) blast+
qed

text \<open>
  C10 on the small store, as user u1. Video va is already in the caller's playlist pa:
  CONFLICT, store unchanged, no insert. The pair (pd, vb) is present, but pd belongs to
  u2: NOT_FOUND after the playlist lookup. With the videos table emptied, the pair
  (pa, va) is present but the video is missing: NOT_FOUND after the video lookup. An empty
  playlist id: BAD_REQUEST. Video vb is not in pa: a fourth row is added and the pairs stay
  distinct.
\<close>

theorem addVideo_existing_pair_witness:
  "playlists_addVideo demo 0 ''u1'' ''pa'' ''va'' =
     (Inl CONFLICT, demo, [Select Playlists None, Select Videos None, Select PlaylistVideos None])
   \<and> Insert PlaylistVideos \<notin> set (snd (snd (playlists_addVideo demo 0 ''u1'' ''pa'' ''va'')))
   \<and> playlists_addVideo demo 0 ''u1'' ''pd'' ''vb'' = (Inl NOT_FOUND, demo, [Select Playlists None])
   \<and> playlists_addVideo (demo\<lparr>videos := []\<rparr>) 0 ''u1'' ''pa'' ''va'' =
       (Inl NOT_FOUND, demo\<lparr>videos := []\<rparr>, [Select Playlists None, Select Videos None])
   \<and> playlists_addVideo demo 0 ''u1'' [] ''va'' = (Inl BAD_REQUEST, demo, [])
   \<and> distinct (map (\<lambda>pv. (pv_playlistId pv, pv_videoId pv))
       (playlistVideos (fst (snd (playlists_addVideo demo 0 ''u1'' ''pa'' ''vb'')))))
   \<and> length (playlistVideos (fst (snd (playlists_addVideo demo 0 ''u1'' ''pa'' ''vb'')))) = 4"
proof -
  have ids: "cuid2 ''pa''" "cuid2 ''va''" "cuid2 ''pd''" "cuid2 ''vb''" "\<not> cuid2 []"
    by (simp_all add: cuid2_def)
  have present: "list_ex (\<lambda>pv. pv_playlistId pv = ''pa'' \<and> pv_videoId pv = ''va'') (playlistVideos demo)"
    "list_ex (\<lambda>pv. pv_playlistId pv = ''pd'' \<and> pv_videoId pv = ''vb'') (playlistVideos demo)"
    "list_ex (\<lambda>pv. pv_playlistId pv = ''pa'' \<and> pv_videoId pv = ''va'')
       (playlistVideos (demo\<lparr>videos := []\<rparr>))"
    by (simp_all add: demo_def)
  have guards: "list_ex (\<lambda>p. p_id p = ''pa'' \<and> p_userId p = ''u1'') (playlists demo)"
    "list_ex (\<lambda>v. v_id v = ''va'') (videos demo)"
    "\<not> list_ex (\<lambda>p. p_id p = ''pd'' \<and> p_userId p = ''u1'') (playlists demo)"
    "list_ex (\<lambda>p. p_id p = ''pa'' \<and> p_userId p = ''u1'') (playlists (demo\<lparr>videos := []\<rparr>))"
    "\<not> list_ex (\<lambda>v. v_id v = ''va'') (videos (demo\<lparr>videos := []\<rparr>))"
    "distinct (map (\<lambda>pv. (pv_playlistId pv, pv_videoId pv)) (playlistVideos demo))"
    by (simp_all add: demo_def demo_playlist_def demo_video_def)
  have len: "length (playlistVideos (fst (snd (playlists_addVideo demo 0 ''u1'' ''pa'' ''vb'')))) = 4"
    by code_simp
  have conflict: "playlists_addVideo demo 0 ''u1'' ''pa'' ''va'' =
     (Inl CONFLICT, demo, [Select Playlists None, Select Videos None, Select PlaylistVideos None])"
    using ids present guards
      addVideo_existing_pair [where pid = "''pa''" and vid = "''va''" and d = demo and now = 0
        and me = "''u1''"]
    by blast
  have foreign: "playlists_addVideo demo 0 ''u1'' ''pd'' ''vb'' = (Inl NOT_FOUND, demo, [Select Playlists None])"
    using ids present guards
      addVideo_existing_pair [where pid = "''pd''" and vid = "''vb''" and d = demo and now = 0
        and me = "''u1''"]
    by blast
  have missing: "playlists_addVideo (demo\<lparr>videos := []\<rparr>) 0 ''u1'' ''pa'' ''va'' =
       (Inl NOT_FOUND, demo\<lparr>videos := []\<rparr>, [Select Playlists None, Select Videos None])"
    using ids present guards
      addVideo_existing_pair [where pid = "''pa''" and vid = "''va''" and d = "demo\<lparr>videos := []\<rparr>"
        and now = 0 and me = "''u1''"]
    by blast
  have malformed: "playlists_addVideo demo 0 ''u1'' [] ''va'' = (Inl BAD_REQUEST, demo, [])"
    using ids
      addVideo_existing_pair [where pid = "[]" and vid = "''va''" and d = demo and now = 0
        and me = "''u1''"]
    by blast
  have keeps: "distinct (map (\<lambda>pv. (pv_playlistId pv, pv_videoId pv))
       (playlistVideos (fst (snd (playlists_addVideo demo 0 ''u1'' ''pa'' ''vb'')))))"
    using guards
      addVideo_existing_pair [where pid = "''pa''" and vid = "''vb''" and d = demo and now = 0
        and me = "''u1''"]
    by blast
  show ?thesis
    using conflict foreign missing malformed keeps len by simp
qed

text \<open>
  C10 as stated fails: the pair (pd, vb) is in playlist pd, which belongs to u2; when u1
  adds vb to pd the call fails with NOT_FOUND, not CONFLICT.
\<close>

theorem addVideo_foreign_playlist_counterexample:
  "list_ex (\<lambda>pv. pv_playlistId pv = ''pd'' \<and> pv_videoId pv = ''vb'') (playlistVideos demo)
   \<and> fst (playlists_addVideo demo 0 ''u1'' ''pd'' ''vb'') = Inl NOT_FOUND
   \<and> fst (playlists_addVideo demo 0 ''u1'' ''pd'' ''vb'') \<noteq> Inl CONFLICT"
  by (simp add: playlists_addVideo_def demo_def demo_playlist_def demo_video_def cuid2_def)

section \<open>The order of the watch history\<close>

text \<open>
  C2 fails on getHistory. The caller viewed va (updated at 1) at 20 and vb (updated at 2)
  at 10. The history lists vb before va: descending by the video's update time, ascending
  by viewedAt. Read one row at a time, the cursor (vb, 10) compares viewedAt, so the second
  page is empty and va is never listed.
\<close>

theorem getHistory_ordered_by_updatedAt:
  "map (\<lambda>r. (v_id (item_video r), v_updatedAt (item_video r), viewedAt r))
       (page_items (fst (playlists_getHistory demo ''u1'' None 10)))
     = [(''vb'', 2, 10), (''va'', 1, 20)]
   \<and> map_option (map (\<lambda>pg. (map (\<lambda>r. v_id (item_video r)) (items pg), nextCursor pg)))
       (follow_cursors 3 (\<lambda>c. fst (playlists_getHistory demo ''u1'' c 1)) None)
     = Some [([''vb''], Some \<lparr>cursor_id = ''vb'', cursor_key = 10\<rparr>), ([], None)]"
  by code_simp

section \<open>Ordered reads and cursors\<close>

lemma cursor_where_Some:
  "cursor_where (Some c) k i \<longleftrightarrow> (k, i) < (cursor_key c, cursor_id c)"
  by (auto simp: cursor_where_def)

lemma cursor_where_None: "cursor_where None k i"
  by (simp add: cursor_where_def)

lemma filter_orderBy_desc:
  "filter P (orderBy_desc key rows) = orderBy_desc key (filter P rows)"
  by (simp add: orderBy_desc_def filter_sort flip: rev_filter)

lemma orderBy_desc_sorted:
  "sorted_wrt (\<lambda>a b. key b \<le> key a) (orderBy_desc key rows)"
proof -
  have "sorted (map key (sort_key key rows))"
    by (rule sorted_sort_key)
  then show ?thesis
    by (simp add: orderBy_desc_def sorted_wrt_rev sorted_map)
qed

lemma orderBy_desc_strict:
  assumes "distinct (map key rows)"
  shows "sorted_wrt (\<lambda>a b. key b < key a) (orderBy_desc key rows)"
proof -
  have "distinct (map key (sort_key key rows))"
    using assms by (simp add: distinct_map)
  moreover have "sorted (map key (sort_key key rows))"
    by (rule sorted_sort_key)
  ultimately have "sorted_wrt (<) (map key (sort_key key rows))"
    by (simp add: strict_sorted_iff)
  then show ?thesis
    by (simp add: orderBy_desc_def sorted_wrt_rev sorted_wrt_map)
qed

lemma filter_below_pivot:
  fixes key :: "'r \<Rightarrow> 'k::linorder"
  assumes "sorted_wrt (\<lambda>a b. key b < key a) (xs @ y # ys)"
  shows "filter (\<lambda>x. key x < key y) (xs @ y # ys) = ys"
proof -
  have above: "\<forall>x \<in> set xs. key y < key x" and below: "\<forall>x \<in> set ys. key x < key y"
    using assms by (auto simp: sorted_wrt_append)
  have "filter (\<lambda>x. key x < key y) xs = []"
    using above by (auto simp: filter_empty_conv)
  moreover have "filter (\<lambda>x. key x < key y) ys = ys"
    using below by (simp add: filter_id_conv)
  ultimately show ?thesis
    by simp
qed

lemma filter_below_nth:
  fixes key :: "'r \<Rightarrow> 'k::linorder"
  assumes "sorted_wrt (\<lambda>a b. key b < key a) (A @ B)" and "1 \<le> L" and "L \<le> length B"
  shows "filter (\<lambda>x. key x < key (last (take L B))) (A @ B) = drop L B"
proof -
  have i: "L - 1 < length B"
    using assms by simp
  have b: "last (take L B) = B ! (L - 1)"
  proof -
    have "take L B \<noteq> []"
      using assms by auto
    then have "last (take L B) = take L B ! (length (take L B) - 1)"
      by (rule last_conv_nth)
    then show ?thesis
      using assms by simp
  qed
  have "B = take (L - 1) B @ B ! (L - 1) # drop L B"
    using id_take_nth_drop [OF i] assms(2) by simp
  then have split: "A @ B = (A @ take (L - 1) B) @ B ! (L - 1) # drop L B"
    by simp
  have "sorted_wrt (\<lambda>a b. key b < key a) ((A @ take (L - 1) B) @ B ! (L - 1) # drop L B)"
    using assms(1) split by simp
  then have "filter (\<lambda>x. key x < key (B ! (L - 1))) ((A @ take (L - 1) B) @ B ! (L - 1) # drop L B)
      = drop L B"
    by (rule filter_below_pivot)
  then have "filter (\<lambda>x. key x < key (B ! (L - 1))) (A @ B) = drop L B"
    by (simp only: split [symmetric])
  then show ?thesis
    by (simp only: b)
qed

text \<open>
  A listing whose calls read the rows of a strictly descending list \<open>S\<close> below the cursor,
  capped at \<open>L + 1\<close>: following the cursors from any point of \<open>S\<close> returns the rest of \<open>S\<close>.
\<close>

lemma follow_cursors_rest:
  fixes key :: "'r \<Rightarrow> 'k::linorder" and mk :: "'r \<Rightarrow> 'c cursor"
  assumes strict: "sorted_wrt (\<lambda>a b. key b < key a) S"
    and L: "1 \<le> L"
    and below: "\<And>r. r \<in> set S \<Longrightarrow>
          fetch (Some (mk r)) = paginate (of_nat L) mk (take (Suc L) (filter (\<lambda>x. key x < key r) S))"
  shows "S = A @ B \<Longrightarrow> fetch cur = paginate (of_nat L) mk (take (Suc L) B) \<Longrightarrow> length B < n \<Longrightarrow>
    \<exists>pages. follow_cursors n fetch cur = Some pages \<and> concat (map items pages) = B
      \<and> pages \<noteq> [] \<and> nextCursor (last pages) = None"
proof (induction n arbitrary: A B cur)
  case 0
  then show ?case by simp
next
  case (Suc n)
  show ?case
  proof (cases "length B \<le> L")
    case True
    then have "fetch cur = Inr \<lparr>items = B, nextCursor = None\<rparr>"
      using Suc.prems(2) by (simp add: paginate_last)
    then show ?thesis
      by simp
  next
    case False
    then have len: "length (take (Suc L) B) = Suc L"
      by simp
    have tk: "take L (take (Suc L) B) = take L B"
      by (simp add: min_def)
    let ?b = "last (take L B)"
    have page: "fetch cur = Inr \<lparr>items = take L B, nextCursor = Some (mk ?b)\<rparr>"
      using Suc.prems(2) paginate_more [OF len L, of mk] by (simp only: tk)
    have "take L B \<noteq> []"
      using False L by auto
    then have "?b \<in> set (take L B)"
      by (rule last_in_set)
    then have mem: "?b \<in> set S"
      using Suc.prems(1) by (auto dest: in_set_takeD)
    have "filter (\<lambda>x. key x < key ?b) S = drop L B"
      using filter_below_nth [of key A B L] strict L False Suc.prems(1) by simp
    then have next_call: "fetch (Some (mk ?b)) = paginate (of_nat L) mk (take (Suc L) (drop L B))"
      using below [OF mem] by simp
    have "length (drop L B) < n"
      using Suc.prems(3) L False by simp
    moreover have "S = (A @ take L B) @ drop L B"
      using Suc.prems(1) by simp
    ultimately obtain pages where pages:
      "follow_cursors n fetch (Some (mk ?b)) = Some pages" "concat (map items pages) = drop L B"
      "pages \<noteq> []" "nextCursor (last pages) = None"
      using Suc.IH [OF _ next_call] by blast
    have "follow_cursors (Suc n) fetch cur = Some (\<lparr>items = take L B, nextCursor = Some (mk ?b)\<rparr> # pages)"
      using page pages(1) by simp
    then show ?thesis
      using pages by simp
  qed
qed

lemma follow_cursors_all:
  fixes key :: "'r \<Rightarrow> 'k::linorder" and mk :: "'r \<Rightarrow> 'c cursor"
  assumes "sorted_wrt (\<lambda>a b. key b < key a) S"
    and "1 \<le> L"
    and "fetch None = paginate (of_nat L) mk (take (Suc L) S)"
    and "\<And>r. r \<in> set S \<Longrightarrow>
          fetch (Some (mk r)) = paginate (of_nat L) mk (take (Suc L) (filter (\<lambda>x. key x < key r) S))"
    and "length S < n"
  shows "\<exists>pages. follow_cursors n fetch None = Some pages \<and> concat (map items pages) = S
      \<and> pages \<noteq> [] \<and> nextCursor (last pages) = None"
  using follow_cursors_rest [of key S L fetch mk "[]" S None n] assms by simp

section \<open>The two getMany listings, page by page\<close>

lemma playlists_getMany_data_listing:
  "playlists_getMany_data d me c limit =
     row_limit (limit + 1)
       (filter (\<lambda>r. cursor_where c (p_updatedAt (item_playlist r)) (p_id (item_playlist r)))
         (playlists_getMany_listing d me))"
  by (simp add: playlists_getMany_data_def playlists_getMany_listing_def filter_orderBy_desc
      filter_map o_def split_def playlists_getMany_select_def)

lemma videos_getMany_data_listing:
  "videos_getMany_data d u cat c limit =
     row_limit (limit + 1)
       (filter (\<lambda>r. cursor_where c (v_updatedAt (item_video r)) (v_id (item_video r)))
         (videos_getMany_listing d u cat))"
  by (simp add: videos_getMany_data_def videos_getMany_listing_def filter_orderBy_desc
      filter_map o_def split_def video_select_def)

lemma filter_key_le_one:
  assumes "distinct (map g ys)"
  shows "length (filter (\<lambda>y. c = g y) ys) \<le> 1"
  using assms
proof (induction ys)
  case Nil
  then show ?case by simp
next
  case (Cons y ys)
  show ?case
  proof (cases "c = g y")
    case True
    then have "filter (\<lambda>y. c = g y) ys = []"
      using Cons.prems by (auto simp: filter_empty_conv)
    then show ?thesis
      using True by simp
  next
    case False
    then show ?thesis
      using Cons by simp
  qed
qed

lemma distinct_map_const:
  assumes "length zs \<le> 1"
  shows "distinct (map (\<lambda>z. c) zs)"
proof (cases zs)
  case Nil
  then show ?thesis by simp
next
  case (Cons z zs')
  then have "zs' = []"
    using assms by simp
  then show ?thesis
    using Cons by simp
qed

lemma distinct_innerJoin:
  assumes "distinct (map f xs)" and "distinct (map g ys)"
  shows "distinct (map (\<lambda>j. f (fst j)) (innerJoin xs ys (\<lambda>x y. h x = g y)))"
  using assms(1)
proof (induction xs)
  case Nil
  then show ?case by (simp add: innerJoin_def)
next
  case (Cons x xs)
  have step: "innerJoin (x # xs) ys (\<lambda>x y. h x = g y) =
      map (Pair x) (filter (\<lambda>y. h x = g y) ys) @ innerJoin xs ys (\<lambda>x y. h x = g y)"
    by (simp add: innerJoin_def)
  have one: "distinct (map (\<lambda>z. f x) (filter (\<lambda>y. h x = g y) ys))"
    using filter_key_le_one [OF assms(2)] by (rule distinct_map_const)
  have rest: "distinct (map (\<lambda>j. f (fst j)) (innerJoin xs ys (\<lambda>x y. h x = g y)))"
    using Cons by simp
  have apart: "f x \<notin> (\<lambda>j. f (fst j)) ` set (innerJoin xs ys (\<lambda>x y. h x = g y))"
    using Cons.prems by (auto simp: set_innerJoin)
  show ?case
    unfolding step using one rest apart by (auto simp: o_def)
qed

lemma distinct_map_insort_key:
  "distinct (map f (insort_key k x xs)) \<longleftrightarrow> f x \<notin> f ` set xs \<and> distinct (map f xs)"
  by (induction xs) (auto simp: set_insort_key)

lemma distinct_map_orderBy_desc:
  "distinct (map f (orderBy_desc k xs)) = distinct (map f xs)"
proof -
  have "distinct (map f (sort_key k xs)) = distinct (map f xs)"
    by (induction xs) (simp_all add: distinct_map_insort_key)
  then show ?thesis
    by (simp only: orderBy_desc_def rev_map [symmetric] distinct_rev)
qed

lemma playlists_getMany_listing_keys:
  assumes "distinct (map p_id (playlists d))" and "distinct (map u_id (users d))"
  shows "distinct (map (\<lambda>r. p_id (item_playlist r)) (playlists_getMany_listing d me))"
proof -
  let ?js = "innerJoin (playlists d) (users d) (\<lambda>p u. p_userId p = u_id u)"
  have "distinct (map (\<lambda>j. p_id (fst j)) ?js)"
    using assms by (rule distinct_innerJoin)
  then have "distinct (map (\<lambda>j. p_id (fst j)) (filter (\<lambda>(p, u). p_userId p = me) ?js))"
    by (rule distinct_map_filter)
  moreover have "map (\<lambda>r. p_id (item_playlist r))
        (map (playlists_getMany_select d) (filter (\<lambda>(p, u). p_userId p = me) ?js))
      = map (\<lambda>j. p_id (fst j)) (filter (\<lambda>(p, u). p_userId p = me) ?js)"
    by (simp add: playlists_getMany_select_def split_def)
  ultimately have "distinct (map (\<lambda>r. p_id (item_playlist r))
        (map (playlists_getMany_select d) (filter (\<lambda>(p, u). p_userId p = me) ?js)))"
    by (simp only:)
  then show ?thesis
    unfolding playlists_getMany_listing_def by (simp only: distinct_map_orderBy_desc)
qed

lemma videos_getMany_listing_keys:
  assumes "distinct (map v_id (videos d))" and "distinct (map u_id (users d))"
  shows "distinct (map (\<lambda>r. v_id (item_video r)) (videos_getMany_listing d u cat))"
proof -
  let ?js = "innerJoin (videos d) (users d) (\<lambda>v u. v_userId v = u_id u)"
  let ?P = "\<lambda>(v, u). videos_getMany_filter u cat v"
  have "distinct (map (\<lambda>j. v_id (fst j)) ?js)"
    using assms by (rule distinct_innerJoin)
  then have "distinct (map (\<lambda>j. v_id (fst j)) (filter (\<lambda>(v, w). videos_getMany_filter u cat v) ?js))"
    by (rule distinct_map_filter)
  moreover have "map (\<lambda>r. v_id (item_video r))
        (map (\<lambda>(v, w). video_select d v w) (filter (\<lambda>(v, w). videos_getMany_filter u cat v) ?js))
      = map (\<lambda>j. v_id (fst j)) (filter (\<lambda>(v, w). videos_getMany_filter u cat v) ?js)"
    by (simp add: video_select_def split_def)
  ultimately have "distinct (map (\<lambda>r. v_id (item_video r))
        (map (\<lambda>(v, w). video_select d v w) (filter (\<lambda>(v, w). videos_getMany_filter u cat v) ?js)))"
    by (simp only:)
  then show ?thesis
    unfolding videos_getMany_listing_def by (simp only: distinct_map_orderBy_desc)
qed

lemma set_playlists_getMany_listing:
  "item_playlist ` set (playlists_getMany_listing d me) =
     {p \<in> set (playlists d). p_userId p = me \<and> me \<in> u_id ` set (users d)}"
proof (intro set_eqI iffI)
  fix p
  assume "p \<in> item_playlist ` set (playlists_getMany_listing d me)"
  then show "p \<in> {p \<in> set (playlists d). p_userId p = me \<and> me \<in> u_id ` set (users d)}"
    by (auto simp: playlists_getMany_listing_def set_orderBy_desc set_innerJoin
        playlists_getMany_select_def)
next
  fix p
  assume "p \<in> {p \<in> set (playlists d). p_userId p = me \<and> me \<in> u_id ` set (users d)}"
  then obtain u where pu: "p \<in> set (playlists d)" "p_userId p = me" "u \<in> set (users d)" "u_id u = me"
    by auto
  then have "playlists_getMany_select d (p, u) \<in> set (playlists_getMany_listing d me)"
    by (simp add: playlists_getMany_listing_def set_orderBy_desc set_innerJoin)
  moreover have "item_playlist (playlists_getMany_select d (p, u)) = p"
    by (simp add: playlists_getMany_select_def)
  ultimately show "p \<in> item_playlist ` set (playlists_getMany_listing d me)"
    by (metis imageI)
qed

lemma set_videos_getMany_listing:
  "item_video ` set (videos_getMany_listing d u cat) =
     {v \<in> set (videos d). videos_getMany_filter u cat v \<and> v_userId v \<in> u_id ` set (users d)}"
proof (intro set_eqI iffI)
  fix v
  assume "v \<in> item_video ` set (videos_getMany_listing d u cat)"
  then show "v \<in> {v \<in> set (videos d). videos_getMany_filter u cat v \<and> v_userId v \<in> u_id ` set (users d)}"
    by (auto simp: videos_getMany_listing_def set_orderBy_desc set_innerJoin video_select_def)
next
  fix v
  assume "v \<in> {v \<in> set (videos d). videos_getMany_filter u cat v \<and> v_userId v \<in> u_id ` set (users d)}"
  then obtain w where vw: "v \<in> set (videos d)" "videos_getMany_filter u cat v" "w \<in> set (users d)"
      "v_userId v = u_id w"
    by auto
  then have "(v, w) \<in> set (filter (\<lambda>(v, w). videos_getMany_filter u cat v)
      (innerJoin (videos d) (users d) (\<lambda>v u. v_userId v = u_id u)))"
    by (simp add: set_innerJoin)
  then have "(\<lambda>(v, w). video_select d v w) (v, w) \<in> set (videos_getMany_listing d u cat)"
    unfolding videos_getMany_listing_def set_orderBy_desc set_map by (rule imageI)
  then have "video_select d v w \<in> set (videos_getMany_listing d u cat)"
    by simp
  moreover have "item_video (video_select d v w) = v"
    by (simp add: video_select_def)
  ultimately show "v \<in> item_video ` set (videos_getMany_listing d u cat)"
    by (metis imageI)
qed

section \<open>Pages are sorted; the first row of a page\<close>

lemma playlists_getMany_listing_sorted:
  "sorted_wrt (\<lambda>a b. (p_updatedAt (item_playlist b), p_id (item_playlist b))
                     \<le> (p_updatedAt (item_playlist a), p_id (item_playlist a)))
     (playlists_getMany_listing d me)"
  unfolding playlists_getMany_listing_def by (rule orderBy_desc_sorted)

lemma playlists_getMany_data_sorted:
  "sorted_wrt (\<lambda>a b. (p_updatedAt (item_playlist b), p_id (item_playlist b))
                     \<le> (p_updatedAt (item_playlist a), p_id (item_playlist a)))
     (playlists_getMany_data d me c limit)"
  unfolding playlists_getMany_data_listing row_limit_def
  by (intro sorted_wrt_take sorted_wrt_filter playlists_getMany_listing_sorted)

lemma paginate_items_sorted:
  assumes "sorted_wrt R data" and "paginate l mk data = Inr pg"
  shows "sorted_wrt R (items pg)"
proof -
  have "sorted_wrt R (butlast data)"
    using assms(1) by (simp add: butlast_conv_take sorted_wrt_take)
  then show ?thesis
    using assms by (auto simp: paginate_def Let_def split: if_splits)
qed

lemma paginate_nextCursor:
  assumes "paginate l mk data = Inr pg" and "nextCursor pg = Some c"
  shows "items pg \<noteq> [] \<and> c = mk (last (items pg))"
  using assms by (auto simp: paginate_def Let_def split: if_splits)

lemma floor_cap:
  assumes "limit_schema limit"
  shows "2 \<le> nat \<lfloor>limit + 1\<rfloor>"
proof -
  have "1 \<le> \<lfloor>limit\<rfloor>"
    using assms by (simp add: limit_schema_def le_floor_iff)
  moreover have "\<lfloor>limit + 1\<rfloor> = \<lfloor>limit\<rfloor> + 1"
    by simp
  ultimately show ?thesis
    by linarith
qed

lemma paginate_hd:
  assumes "1 \<le> l" and "data \<noteq> []"
  shows "\<exists>pg. paginate l mk data = Inr pg \<and> items pg \<noteq> [] \<and> hd (items pg) = hd data"
proof (cases "of_nat (length data) > l")
  case True
  then have "(1 :: rat) < of_nat (length data)"
    using assms(1) by simp
  then have "1 < length data"
    by (metis of_nat_1 of_nat_less_iff)
  then obtain a b rest where "data = a # b # rest"
    by (cases data; cases "tl data") auto
  then show ?thesis
    using True by (simp add: paginate_def Let_def)
next
  case False
  then show ?thesis
    using assms(2) by (simp add: paginate_def)
qed

lemma sorted_desc_hd_max:
  fixes key :: "'r \<Rightarrow> 'k::linorder"
  assumes "sorted_wrt (\<lambda>a b. key b \<le> key a) xs" and "y \<in> set xs"
  shows "key y \<le> key (hd xs)"
  using assms by (cases xs) auto


lemma take_keeps_hd:
  assumes "0 < k" and "xs \<noteq> []"
  shows "take k xs \<noteq> [] \<and> hd (take k xs) = hd xs"
  using assms by (cases xs; cases k) auto

section \<open>The cursor condition is strict\<close>

lemma playlists_getMany_page_below:
  assumes "r \<in> set (page_items (fst (playlists_getMany d me (Some c) limit)))"
  shows "cursor_where (Some c) (p_updatedAt (item_playlist r)) (p_id (item_playlist r))"
proof -
  have "r \<in> set (playlists_getMany_data d me (Some c) limit)"
    using assms set_page_items_paginate
    by (fastforce simp: playlists_getMany_def page_items_Inl split: if_splits)
  then show ?thesis
    using set_row_limit unfolding playlists_getMany_data_listing by fastforce
qed

lemma playlists_getMany_page_sorted:
  assumes "fst (playlists_getMany d me cur limit) = Inr pg"
  shows "sorted_wrt (\<lambda>a b. (p_updatedAt (item_playlist b), p_id (item_playlist b))
                     \<le> (p_updatedAt (item_playlist a), p_id (item_playlist a))) (items pg)"
  using assms playlists_getMany_data_sorted [of d me cur limit]
  by (auto simp: playlists_getMany_def split: if_splits intro: paginate_items_sorted)

lemma playlists_getMany_nextCursor:
  assumes "fst (playlists_getMany d me cur limit) = Inr pg" and "nextCursor pg = Some c"
  shows "items pg \<noteq> []
    \<and> c = \<lparr>cursor_id = p_id (item_playlist (last (items pg))),
           cursor_key = p_updatedAt (item_playlist (last (items pg)))\<rparr>"
  using assms by (auto simp: playlists_getMany_def split: if_splits dest: paginate_nextCursor)

lemma playlists_getMany_after_tie:
  assumes valid: "cuid2 (p_id (item_playlist x))" "limit_schema limit"
    and x: "x \<in> set (playlists_getMany_listing d me)"
    and y: "y \<in> set (playlists_getMany_listing d me)"
    and tie: "p_updatedAt (item_playlist y) = p_updatedAt (item_playlist x)"
    and less: "p_id (item_playlist y) < p_id (item_playlist x)"
    and gap: "\<forall>z \<in> set (playlists d). p_userId z = me \<and> p_updatedAt z = p_updatedAt (item_playlist x) \<longrightarrow>
          \<not> (p_id (item_playlist y) < p_id z \<and> p_id z < p_id (item_playlist x))"
  shows "\<exists>pg. fst (playlists_getMany d me
            (Some \<lparr>cursor_id = p_id (item_playlist x), cursor_key = p_updatedAt (item_playlist x)\<rparr>) limit) = Inr pg
          \<and> items pg \<noteq> []
          \<and> p_id (item_playlist (hd (items pg))) = p_id (item_playlist y)
          \<and> p_updatedAt (item_playlist (hd (items pg))) = p_updatedAt (item_playlist y)"
proof -
  let ?c = "\<lparr>cursor_id = p_id (item_playlist x), cursor_key = p_updatedAt (item_playlist x)\<rparr>"
  let ?key = "\<lambda>r. (p_updatedAt (item_playlist r), p_id (item_playlist r))"
  let ?mk = "\<lambda>r. \<lparr>cursor_id = p_id (item_playlist r), cursor_key = p_updatedAt (item_playlist r)\<rparr>"
  let ?F = "filter (\<lambda>r. cursor_where (Some ?c) (p_updatedAt (item_playlist r)) (p_id (item_playlist r)))
              (playlists_getMany_listing d me)"
  have yF: "y \<in> set ?F"
    using y tie less by (simp add: cursor_where_def)
  then have ne: "?F \<noteq> []"
    by (metis empty_iff empty_set)
  have "sorted_wrt (\<lambda>a b. ?key b \<le> ?key a) ?F"
    by (intro sorted_wrt_filter playlists_getMany_listing_sorted)
  then have top: "?key y \<le> ?key (hd ?F)"
    using yF by (rule sorted_desc_hd_max)
  have "hd ?F \<in> set ?F"
    using ne by (rule hd_in_set)
  then have hF: "hd ?F \<in> set (playlists_getMany_listing d me)"
    and below: "cursor_where (Some ?c) (p_updatedAt (item_playlist (hd ?F))) (p_id (item_playlist (hd ?F)))"
    unfolding set_filter by blast+
  have "item_playlist (hd ?F) \<in> item_playlist ` set (playlists_getMany_listing d me)"
    using hF by (rule imageI)
  then have own: "item_playlist (hd ?F) \<in> set (playlists d)" "p_userId (item_playlist (hd ?F)) = me"
    unfolding set_playlists_getMany_listing by simp_all
  have key: "p_id (item_playlist (hd ?F)) = p_id (item_playlist y)
      \<and> p_updatedAt (item_playlist (hd ?F)) = p_updatedAt (item_playlist y)"
    using top below gap own tie less by (auto simp: cursor_where_def)
  have data: "playlists_getMany_data d me (Some ?c) limit = take (nat \<lfloor>limit + 1\<rfloor>) ?F"
    unfolding playlists_getMany_data_listing row_limit_def ..
  have cap: "0 < nat \<lfloor>limit + 1\<rfloor>"
    using floor_cap [OF valid(2)] by linarith
  have "playlists_getMany_data d me (Some ?c) limit \<noteq> []"
    "hd (playlists_getMany_data d me (Some ?c) limit) = hd ?F"
    unfolding data using take_keeps_hd [OF cap ne] by blast+
  moreover have "1 \<le> limit"
    using valid(2) by (simp add: limit_schema_def)
  ultimately obtain pg where
    "paginate limit ?mk (playlists_getMany_data d me (Some ?c) limit) = Inr pg"
    "items pg \<noteq> []" "hd (items pg) = hd ?F"
    using paginate_hd [of limit "playlists_getMany_data d me (Some ?c) limit" ?mk] by auto
  then show ?thesis
    using valid key by (simp add: playlists_getMany_def cursor_schema_def)
qed


text \<open>
  C3, for the playlist listing. With a cursor, the read is the whole listing restricted by
  exactly \<open>updatedAt < cursor.updatedAt \<or> (updatedAt = cursor.updatedAt \<and> id < cursor.id)\<close>,
  both comparisons strict, then capped; so every row of the page is strictly below the
  cursor and the row the cursor was taken from is not among them. When a page has a next
  cursor, its last row is not in the page fetched with that cursor, in particular it is
  not that page's first row. Within a page, of two rows with the same update time the one
  with the greater id comes first. For two rows x and y of the listing with the same
  update time, the id of y below the id of x, and none of the user's playlists with that
  update time between them, the page fetched with the cursor of x starts with y and does
  not contain x.
\<close>

theorem cursor_strictly_below:
  "playlists_getMany_data d me (Some c) limit =
      row_limit (limit + 1)
        (filter (\<lambda>r. p_updatedAt (item_playlist r) < cursor_key c
                      \<or> (p_updatedAt (item_playlist r) = cursor_key c \<and> p_id (item_playlist r) < cursor_id c))
          (playlists_getMany_listing d me))
   \<and> (\<forall>r \<in> set (page_items (fst (playlists_getMany d me (Some c) limit))).
        (p_updatedAt (item_playlist r) < cursor_key c
          \<or> (p_updatedAt (item_playlist r) = cursor_key c \<and> p_id (item_playlist r) < cursor_id c))
        \<and> \<not> (p_updatedAt (item_playlist r) = cursor_key c \<and> p_id (item_playlist r) = cursor_id c))
   \<and> (fst (playlists_getMany d me cur limit) = Inr pg \<and> nextCursor pg = Some c'
        \<and> fst (playlists_getMany d me (Some c') limit) = Inr pg' \<longrightarrow>
        items pg \<noteq> [] \<and> last (items pg) \<notin> set (items pg')
        \<and> (items pg' \<noteq> [] \<longrightarrow> hd (items pg') \<noteq> last (items pg)))
   \<and> (fst (playlists_getMany d me cur limit) = Inr pg \<and> i < length (items pg) \<and> j < length (items pg)
        \<and> p_updatedAt (item_playlist (items pg ! i)) = p_updatedAt (item_playlist (items pg ! j))
        \<and> p_id (item_playlist (items pg ! j)) < p_id (item_playlist (items pg ! i)) \<longrightarrow>
        i < j)
   \<and> (cuid2 (p_id (item_playlist x)) \<and> limit_schema limit
        \<and> x \<in> set (playlists_getMany_listing d me) \<and> y \<in> set (playlists_getMany_listing d me)
        \<and> p_updatedAt (item_playlist y) = p_updatedAt (item_playlist x)
        \<and> p_id (item_playlist y) < p_id (item_playlist x)
        \<and> (\<forall>z \<in> set (playlists d). p_userId z = me \<and> p_updatedAt z = p_updatedAt (item_playlist x) \<longrightarrow>
              \<not> (p_id (item_playlist y) < p_id z \<and> p_id z < p_id (item_playlist x))) \<longrightarrow>
        (\<exists>q. fst (playlists_getMany d me
                 (Some \<lparr>cursor_id = p_id (item_playlist x), cursor_key = p_updatedAt (item_playlist x)\<rparr>)
                 limit) = Inr q
            \<and> items q \<noteq> []
            \<and> p_id (item_playlist (hd (items q))) = p_id (item_playlist y)
            \<and> p_updatedAt (item_playlist (hd (items q))) = p_updatedAt (item_playlist y)
            \<and> x \<notin> set (items q)))"
proof (intro conjI impI ballI)
  show "playlists_getMany_data d me (Some c) limit =
      row_limit (limit + 1)
        (filter (\<lambda>r. p_updatedAt (item_playlist r) < cursor_key c
                      \<or> (p_updatedAt (item_playlist r) = cursor_key c \<and> p_id (item_playlist r) < cursor_id c))
          (playlists_getMany_listing d me))"
    by (simp add: playlists_getMany_data_listing cursor_where_def)
next
  fix r
  assume "r \<in> set (page_items (fst (playlists_getMany d me (Some c) limit)))"
  then have below: "cursor_where (Some c) (p_updatedAt (item_playlist r)) (p_id (item_playlist r))"
    by (rule playlists_getMany_page_below)
  then show "p_updatedAt (item_playlist r) < cursor_key c
      \<or> (p_updatedAt (item_playlist r) = cursor_key c \<and> p_id (item_playlist r) < cursor_id c)"
    by (simp add: cursor_where_def)
  show "\<not> (p_updatedAt (item_playlist r) = cursor_key c \<and> p_id (item_playlist r) = cursor_id c)"
    using below by (auto simp: cursor_where_def)
next
  assume a: "fst (playlists_getMany d me cur limit) = Inr pg \<and> nextCursor pg = Some c'
        \<and> fst (playlists_getMany d me (Some c') limit) = Inr pg'"
  then have c': "items pg \<noteq> []"
      "c' = \<lparr>cursor_id = p_id (item_playlist (last (items pg))),
             cursor_key = p_updatedAt (item_playlist (last (items pg)))\<rparr>"
    using playlists_getMany_nextCursor [of d me cur limit pg c'] by simp_all
  show "items pg \<noteq> []"
    by (rule c'(1))
  have below: "cursor_where (Some c') (p_updatedAt (item_playlist r)) (p_id (item_playlist r))"
    if "r \<in> set (items pg')" for r
    using that a playlists_getMany_page_below [of r d me c' limit] by (simp add: page_items_def)
  show out: "last (items pg) \<notin> set (items pg')"
  proof
    assume "last (items pg) \<in> set (items pg')"
    then have "cursor_where (Some c') (p_updatedAt (item_playlist (last (items pg))))
        (p_id (item_playlist (last (items pg))))"
      by (rule below)
    then show False
      unfolding c'(2) by (simp add: cursor_where_def)
  qed
  show "hd (items pg') \<noteq> last (items pg)" if "items pg' \<noteq> []"
    using out hd_in_set [OF that] by auto
next
  assume a: "fst (playlists_getMany d me cur limit) = Inr pg \<and> i < length (items pg) \<and> j < length (items pg)
        \<and> p_updatedAt (item_playlist (items pg ! i)) = p_updatedAt (item_playlist (items pg ! j))
        \<and> p_id (item_playlist (items pg ! j)) < p_id (item_playlist (items pg ! i))"
  then have sorted: "sorted_wrt (\<lambda>a b. (p_updatedAt (item_playlist b), p_id (item_playlist b))
                     \<le> (p_updatedAt (item_playlist a), p_id (item_playlist a))) (items pg)"
    using playlists_getMany_page_sorted by blast
  show "i < j"
  proof (rule ccontr)
    assume "\<not> i < j"
    moreover have "i \<noteq> j"
      using a by auto
    ultimately have "j < i"
      by simp
    then have "(p_updatedAt (item_playlist (items pg ! i)), p_id (item_playlist (items pg ! i)))
        \<le> (p_updatedAt (item_playlist (items pg ! j)), p_id (item_playlist (items pg ! j)))"
      using sorted a sorted_wrt_nth_less [of _ "items pg" j i] by blast
    then show False
      using a by (auto dest: leD)
  qed
next
  assume a: "cuid2 (p_id (item_playlist x)) \<and> limit_schema limit
        \<and> x \<in> set (playlists_getMany_listing d me) \<and> y \<in> set (playlists_getMany_listing d me)
        \<and> p_updatedAt (item_playlist y) = p_updatedAt (item_playlist x)
        \<and> p_id (item_playlist y) < p_id (item_playlist x)
        \<and> (\<forall>z \<in> set (playlists d). p_userId z = me \<and> p_updatedAt z = p_updatedAt (item_playlist x) \<longrightarrow>
              \<not> (p_id (item_playlist y) < p_id z \<and> p_id z < p_id (item_playlist x)))"
  let ?c = "\<lparr>cursor_id = p_id (item_playlist x), cursor_key = p_updatedAt (item_playlist x)\<rparr>"
  obtain q where q: "fst (playlists_getMany d me (Some ?c) limit) = Inr q" "items q \<noteq> []"
      "p_id (item_playlist (hd (items q))) = p_id (item_playlist y)"
      "p_updatedAt (item_playlist (hd (items q))) = p_updatedAt (item_playlist y)"
    using playlists_getMany_after_tie [of x limit d me y] a by blast
  have "x \<notin> set (items q)"
  proof
    assume "x \<in> set (items q)"
    then have "cursor_where (Some ?c) (p_updatedAt (item_playlist x)) (p_id (item_playlist x))"
      using q(1) playlists_getMany_page_below [of x d me ?c limit] by (simp add: page_items_def)
    then show False
      by (simp add: cursor_where_def)
  qed
  then show "\<exists>q. fst (playlists_getMany d me (Some ?c) limit) = Inr q
            \<and> items q \<noteq> []
            \<and> p_id (item_playlist (hd (items q))) = p_id (item_playlist y)
            \<and> p_updatedAt (item_playlist (hd (items q))) = p_updatedAt (item_playlist y)
            \<and> x \<notin> set (items q)"
    using q by blast
qed


text \<open>
  C3 on the small store: playlists pb and pa of u1 are both updated at 5. The first page
  lists pc, pb, pa; the page at the cursor of pb starts with pa and does not list pb. With
  the limit 2 the first page is pc, pb with the next cursor (pb, 5), and the page fetched
  with that cursor is pa: the last row of the one is not in the other.
\<close>

theorem cursor_strictly_below_witness:
  "map (\<lambda>r. (p_id (item_playlist r), p_updatedAt (item_playlist r)))
       (page_items (fst (playlists_getMany demo ''u1'' None 10)))
     = [(''pc'', 7), (''pb'', 5), (''pa'', 5)]
   \<and> map (\<lambda>r. (p_id (item_playlist r), p_updatedAt (item_playlist r)))
       (page_items (fst (playlists_getMany demo ''u1'' (Some \<lparr>cursor_id = ''pb'', cursor_key = 5\<rparr>) 10)))
     = [(''pa'', 5)]
   \<and> (\<exists>q. fst (playlists_getMany demo ''u1'' (Some \<lparr>cursor_id = ''pb'', cursor_key = 5\<rparr>) 10) = Inr q
         \<and> items q \<noteq> []
         \<and> p_id (item_playlist (hd (items q))) = ''pa''
         \<and> playlists_getMany_select demo (demo_playlist ''pb'' ''u1'' 5, \<lparr>u_id = ''u1''\<rparr>) \<notin> set (items q))
   \<and> (\<exists>pg pg'. fst (playlists_getMany demo ''u1'' None 2) = Inr pg
         \<and> nextCursor pg = Some \<lparr>cursor_id = ''pb'', cursor_key = 5\<rparr>
         \<and> fst (playlists_getMany demo ''u1'' (Some \<lparr>cursor_id = ''pb'', cursor_key = 5\<rparr>) 2) = Inr pg'
         \<and> map (\<lambda>r. p_id (item_playlist r)) (items pg) = [''pc'', ''pb'']
         \<and> map (\<lambda>r. p_id (item_playlist r)) (items pg') = [''pa'']
         \<and> last (items pg) \<notin> set (items pg'))"
proof -
  let ?x = "playlists_getMany_select demo (demo_playlist ''pb'' ''u1'' 5, \<lparr>u_id = ''u1''\<rparr>)"
  let ?y = "playlists_getMany_select demo (demo_playlist ''pa'' ''u1'' 5, \<lparr>u_id = ''u1''\<rparr>)"
  have pages: "map (\<lambda>r. (p_id (item_playlist r), p_updatedAt (item_playlist r)))
       (page_items (fst (playlists_getMany demo ''u1'' None 10)))
     = [(''pc'', 7), (''pb'', 5), (''pa'', 5)]"
    "map (\<lambda>r. (p_id (item_playlist r), p_updatedAt (item_playlist r)))
       (page_items (fst (playlists_getMany demo ''u1'' (Some \<lparr>cursor_id = ''pb'', cursor_key = 5\<rparr>) 10)))
     = [(''pa'', 5)]"
    by code_simp+
  have listing: "playlists_getMany_listing demo ''u1'' =
      [playlists_getMany_select demo (demo_playlist ''pc'' ''u1'' 7, \<lparr>u_id = ''u1''\<rparr>), ?x, ?y]"
    by (simp add: playlists_getMany_listing_def orderBy_desc_def innerJoin_def demo_def
        demo_playlist_def playlists_getMany_select_def)
  have fields: "p_id (item_playlist ?x) = ''pb''" "p_updatedAt (item_playlist ?x) = 5"
    "p_id (item_playlist ?y) = ''pa''" "p_updatedAt (item_playlist ?y) = 5"
    by (simp_all add: playlists_getMany_select_def demo_playlist_def)
  have hyps: "cuid2 (p_id (item_playlist ?x))" "limit_schema 10"
    "?x \<in> set (playlists_getMany_listing demo ''u1'')"
    "?y \<in> set (playlists_getMany_listing demo ''u1'')"
    "p_updatedAt (item_playlist ?y) = p_updatedAt (item_playlist ?x)"
    "p_id (item_playlist ?y) < p_id (item_playlist ?x)"
    "\<forall>z \<in> set (playlists demo). p_userId z = ''u1'' \<and> p_updatedAt z = p_updatedAt (item_playlist ?x) \<longrightarrow>
        \<not> (p_id (item_playlist ?y) < p_id z \<and> p_id z < p_id (item_playlist ?x))"
    unfolding fields listing
    by (simp_all add: cuid2_def limit_schema_def demo_def demo_playlist_def)
  have "\<exists>q. fst (playlists_getMany demo ''u1''
                 (Some \<lparr>cursor_id = p_id (item_playlist ?x), cursor_key = p_updatedAt (item_playlist ?x)\<rparr>)
                 10) = Inr q
            \<and> items q \<noteq> []
            \<and> p_id (item_playlist (hd (items q))) = p_id (item_playlist ?y)
            \<and> p_updatedAt (item_playlist (hd (items q))) = p_updatedAt (item_playlist ?y)
            \<and> ?x \<notin> set (items q)"
    using hyps cursor_strictly_below [where x = ?x and y = ?y and d = demo and me = "''u1''" and limit = 10]
    by blast
  then have tie: "\<exists>q. fst (playlists_getMany demo ''u1'' (Some \<lparr>cursor_id = ''pb'', cursor_key = 5\<rparr>) 10) = Inr q
         \<and> items q \<noteq> []
         \<and> p_id (item_playlist (hd (items q))) = ''pa''
         \<and> ?x \<notin> set (items q)"
    unfolding fields by blast
  have "case fst (playlists_getMany demo ''u1'' None 2) of
          Inl e \<Rightarrow> False
        | Inr pg \<Rightarrow> nextCursor pg = Some \<lparr>cursor_id = ''pb'', cursor_key = 5\<rparr>
            \<and> map (\<lambda>r. p_id (item_playlist r)) (items pg) = [''pc'', ''pb'']"
    by code_simp
  then obtain pg where pg: "fst (playlists_getMany demo ''u1'' None 2) = Inr pg"
      "nextCursor pg = Some \<lparr>cursor_id = ''pb'', cursor_key = 5\<rparr>"
      "map (\<lambda>r. p_id (item_playlist r)) (items pg) = [''pc'', ''pb'']"
    by (cases "fst (playlists_getMany demo ''u1'' None 2)") auto
  have "case fst (playlists_getMany demo ''u1'' (Some \<lparr>cursor_id = ''pb'', cursor_key = 5\<rparr>) 2) of
          Inl e \<Rightarrow> False
        | Inr pg' \<Rightarrow> map (\<lambda>r. p_id (item_playlist r)) (items pg') = [''pa'']"
    by code_simp
  then obtain pg' where pg':
      "fst (playlists_getMany demo ''u1'' (Some \<lparr>cursor_id = ''pb'', cursor_key = 5\<rparr>) 2) = Inr pg'"
      "map (\<lambda>r. p_id (item_playlist r)) (items pg') = [''pa'']"
    by (cases "fst (playlists_getMany demo ''u1'' (Some \<lparr>cursor_id = ''pb'', cursor_key = 5\<rparr>) 2)") auto
  have "last (items pg) \<notin> set (items pg')"
    using pg(1,2) pg'(1)
      cursor_strictly_below [where d = demo and me = "''u1''" and cur = None and limit = 2
        and pg = pg and c' = "\<lparr>cursor_id = ''pb'', cursor_key = 5\<rparr>" and pg' = pg']
    by blast
  then have boundary: "\<exists>pg pg'. fst (playlists_getMany demo ''u1'' None 2) = Inr pg
         \<and> nextCursor pg = Some \<lparr>cursor_id = ''pb'', cursor_key = 5\<rparr>
         \<and> fst (playlists_getMany demo ''u1'' (Some \<lparr>cursor_id = ''pb'', cursor_key = 5\<rparr>) 2) = Inr pg'
         \<and> map (\<lambda>r. p_id (item_playlist r)) (items pg) = [''pc'', ''pb'']
         \<and> map (\<lambda>r. p_id (item_playlist r)) (items pg') = [''pa'']
         \<and> last (items pg) \<notin> set (items pg')"
    using pg pg' by (intro exI [of _ pg] exI [of _ pg']) (simp only: simp_thms)
  show ?thesis
    using pages tie boundary by (intro conjI)
qed

section \<open>Following the cursors lists everything once\<close>

lemma strict_desc:
  fixes key :: "'r \<Rightarrow> 'k::linorder"
  assumes "sorted_wrt (\<lambda>a b. key b \<le> key a) S" and "distinct (map key S)"
  shows "sorted_wrt (\<lambda>a b. key b < key a) S"
  using assms by (induction S) (auto simp: less_le image_iff)

lemma distinct_map_pair:
  assumes "distinct (map g xs)"
  shows "distinct (map (\<lambda>x. (f x, g x)) xs)"
  using assms by (induction xs) auto

lemma length_innerJoin_le:
  assumes "distinct (map g ys)"
  shows "length (innerJoin xs ys (\<lambda>x y. h x = g y)) \<le> length xs"
proof (induction xs)
  case Nil
  then show ?case by (simp add: innerJoin_def)
next
  case (Cons x xs)
  have "innerJoin (x # xs) ys (\<lambda>x y. h x = g y) =
      map (Pair x) (filter (\<lambda>y. h x = g y) ys) @ innerJoin xs ys (\<lambda>x y. h x = g y)"
    by (simp add: innerJoin_def)
  then show ?case
    using Cons filter_key_le_one [OF assms, of "h x"] by simp
qed

lemma length_orderBy_desc: "length (orderBy_desc k xs) = length xs"
  by (simp add: orderBy_desc_def)

lemma length_playlists_getMany_listing:
  assumes "distinct (map u_id (users d))"
  shows "length (playlists_getMany_listing d me) \<le> length (playlists d)"
proof -
  have "length (playlists_getMany_listing d me)
      \<le> length (innerJoin (playlists d) (users d) (\<lambda>p u. p_userId p = u_id u))"
    by (simp add: playlists_getMany_listing_def length_orderBy_desc)
  also have "\<dots> \<le> length (playlists d)"
    using assms by (rule length_innerJoin_le)
  finally show ?thesis .
qed

lemma length_videos_getMany_listing:
  assumes "distinct (map u_id (users d))"
  shows "length (videos_getMany_listing d u cat) \<le> length (videos d)"
proof -
  have "length (videos_getMany_listing d u cat)
      \<le> length (innerJoin (videos d) (users d) (\<lambda>v u. v_userId v = u_id u))"
    by (simp add: videos_getMany_listing_def length_orderBy_desc)
  also have "\<dots> \<le> length (videos d)"
    using assms by (rule length_innerJoin_le)
  finally show ?thesis .
qed

lemma playlists_getMany_listing_strict:
  assumes "distinct (map p_id (playlists d))" and "distinct (map u_id (users d))"
  shows "sorted_wrt (\<lambda>a b. (p_updatedAt (item_playlist b), p_id (item_playlist b))
                     < (p_updatedAt (item_playlist a), p_id (item_playlist a)))
     (playlists_getMany_listing d me)"
proof (rule strict_desc)
  show "sorted_wrt (\<lambda>a b. (p_updatedAt (item_playlist b), p_id (item_playlist b))
                     \<le> (p_updatedAt (item_playlist a), p_id (item_playlist a)))
     (playlists_getMany_listing d me)"
    by (rule playlists_getMany_listing_sorted)
  show "distinct (map (\<lambda>r. (p_updatedAt (item_playlist r), p_id (item_playlist r)))
      (playlists_getMany_listing d me))"
    using playlists_getMany_listing_keys [OF assms] by (rule distinct_map_pair)
qed

lemma videos_getMany_listing_sorted:
  "sorted_wrt (\<lambda>a b. (v_updatedAt (item_video b), v_id (item_video b))
                     \<le> (v_updatedAt (item_video a), v_id (item_video a)))
     (videos_getMany_listing d u cat)"
  unfolding videos_getMany_listing_def by (rule orderBy_desc_sorted)

lemma videos_getMany_listing_strict:
  assumes "distinct (map v_id (videos d))" and "distinct (map u_id (users d))"
  shows "sorted_wrt (\<lambda>a b. (v_updatedAt (item_video b), v_id (item_video b))
                     < (v_updatedAt (item_video a), v_id (item_video a)))
     (videos_getMany_listing d u cat)"
proof (rule strict_desc)
  show "sorted_wrt (\<lambda>a b. (v_updatedAt (item_video b), v_id (item_video b))
                     \<le> (v_updatedAt (item_video a), v_id (item_video a)))
     (videos_getMany_listing d u cat)"
    by (rule videos_getMany_listing_sorted)
  show "distinct (map (\<lambda>r. (v_updatedAt (item_video r), v_id (item_video r)))
      (videos_getMany_listing d u cat))"
    using videos_getMany_listing_keys [OF assms] by (rule distinct_map_pair)
qed

lemma follow_cursors_playlists_getMany:
  assumes users: "distinct (map u_id (users d))"
    and ids: "distinct (map p_id (playlists d))"
    and wf: "\<forall>p \<in> set (playlists d). cuid2 (p_id p)"
    and L: "1 \<le> L" "L \<le> 100"
    and n: "length (playlists d) < n"
  shows "\<exists>pages. follow_cursors n (\<lambda>c. fst (playlists_getMany d me c (of_nat L))) None = Some pages
      \<and> concat (map items pages) = playlists_getMany_listing d me
      \<and> pages \<noteq> [] \<and> nextCursor (last pages) = None"
proof (rule follow_cursors_all [where key = "\<lambda>r. (p_updatedAt (item_playlist r), p_id (item_playlist r))"
      and mk = "\<lambda>r. \<lparr>cursor_id = p_id (item_playlist r), cursor_key = p_updatedAt (item_playlist r)\<rparr>"
      and L = L])
  let ?S = "playlists_getMany_listing d me"
  let ?mk = "\<lambda>r. \<lparr>cursor_id = p_id (item_playlist r), cursor_key = p_updatedAt (item_playlist r)\<rparr>"
  have limit: "limit_schema (of_nat L)"
    using L by (simp add: limit_schema_def)
  show "sorted_wrt (\<lambda>a b. (p_updatedAt (item_playlist b), p_id (item_playlist b))
                     < (p_updatedAt (item_playlist a), p_id (item_playlist a))) ?S"
    using ids users by (rule playlists_getMany_listing_strict)
  show "1 \<le> L"
    by (rule L(1))
  show "fst (playlists_getMany d me None (of_nat L)) = paginate (of_nat L) ?mk (take (Suc L) ?S)"
    using limit
    by (simp add: playlists_getMany_def cursor_schema_def playlists_getMany_data_listing
        row_limit_of_nat cursor_where_None)
  show "length ?S < n"
    using length_playlists_getMany_listing [OF users, of me] n by simp
  fix r
  assume r: "r \<in> set ?S"
  then have "item_playlist r \<in> item_playlist ` set ?S"
    by (rule imageI)
  then have "item_playlist r \<in> set (playlists d)"
    unfolding set_playlists_getMany_listing by simp
  then have "cursor_schema (Some (?mk r))"
    using wf by (simp add: cursor_schema_def)
  moreover have "filter (\<lambda>x. cursor_where (Some (?mk r)) (p_updatedAt (item_playlist x)) (p_id (item_playlist x))) ?S
      = filter (\<lambda>x. (p_updatedAt (item_playlist x), p_id (item_playlist x))
                     < (p_updatedAt (item_playlist r), p_id (item_playlist r))) ?S"
    by (simp add: cursor_where_Some)
  ultimately show "fst (playlists_getMany d me (Some (?mk r)) (of_nat L)) =
      paginate (of_nat L) ?mk
        (take (Suc L) (filter (\<lambda>x. (p_updatedAt (item_playlist x), p_id (item_playlist x))
                     < (p_updatedAt (item_playlist r), p_id (item_playlist r))) ?S))"
    using limit
    by (simp only: playlists_getMany_def playlists_getMany_data_listing row_limit_of_nat
        simp_thms if_False fst_conv)
qed

lemma follow_cursors_videos_getMany:
  assumes users: "distinct (map u_id (users d))"
    and ids: "distinct (map v_id (videos d))"
    and wf: "\<forall>v \<in> set (videos d). cuid2 (v_id v)"
    and cat: "cuid2_nullish cat"
    and L: "1 \<le> L" "L \<le> 100"
    and n: "length (videos d) < n"
  shows "\<exists>pages. follow_cursors n (\<lambda>c. fst (videos_getMany d u cat c (of_nat L))) None = Some pages
      \<and> concat (map items pages) = videos_getMany_listing d u cat
      \<and> pages \<noteq> [] \<and> nextCursor (last pages) = None"
proof (rule follow_cursors_all [where key = "\<lambda>r. (v_updatedAt (item_video r), v_id (item_video r))"
      and mk = "\<lambda>r. \<lparr>cursor_id = v_id (item_video r), cursor_key = v_updatedAt (item_video r)\<rparr>"
      and L = L])
  let ?S = "videos_getMany_listing d u cat"
  let ?mk = "\<lambda>r. \<lparr>cursor_id = v_id (item_video r), cursor_key = v_updatedAt (item_video r)\<rparr>"
  have limit: "limit_schema (of_nat L)"
    using L by (simp add: limit_schema_def)
  show "sorted_wrt (\<lambda>a b. (v_updatedAt (item_video b), v_id (item_video b))
                     < (v_updatedAt (item_video a), v_id (item_video a))) ?S"
    using ids users by (rule videos_getMany_listing_strict)
  show "1 \<le> L"
    by (rule L(1))
  show "fst (videos_getMany d u cat None (of_nat L)) = paginate (of_nat L) ?mk (take (Suc L) ?S)"
    using limit cat
    by (simp add: videos_getMany_def cursor_schema_def videos_getMany_data_listing
        row_limit_of_nat cursor_where_None)
  show "length ?S < n"
    using length_videos_getMany_listing [OF users, of u cat] n by simp
  fix r
  assume r: "r \<in> set ?S"
  then have "item_video r \<in> item_video ` set ?S"
    by (rule imageI)
  then have "item_video r \<in> set (videos d)"
    unfolding set_videos_getMany_listing by simp
  then have "cursor_schema (Some (?mk r))"
    using wf by (simp add: cursor_schema_def)
  moreover have "filter (\<lambda>x. cursor_where (Some (?mk r)) (v_updatedAt (item_video x)) (v_id (item_video x))) ?S
      = filter (\<lambda>x. (v_updatedAt (item_video x), v_id (item_video x))
                     < (v_updatedAt (item_video r), v_id (item_video r))) ?S"
    by (simp add: cursor_where_Some)
  ultimately show "fst (videos_getMany d u cat (Some (?mk r)) (of_nat L)) =
      paginate (of_nat L) ?mk
        (take (Suc L) (filter (\<lambda>x. (v_updatedAt (item_video x), v_id (item_video x))
                     < (v_updatedAt (item_video r), v_id (item_video r))) ?S))"
    using limit cat
    by (simp only: videos_getMany_def videos_getMany_data_listing row_limit_of_nat
        simp_thms if_False fst_conv)
qed


lemma distinct_map_outer:
  assumes "distinct (map (\<lambda>x. g (f x)) xs)"
  shows "distinct (map f xs)"
  using assms by (induction xs) auto

text \<open>
  C1, for the two getMany listings. The store does not change between calls; ids are
  unique in their tables and well-formed (so a cursor built from a row passes the schema);
  the limit is a whole number L from 1 to 100. Starting without a cursor and calling again
  with each nextCursor, the reading ends, within as many calls as the table has rows plus
  one, on a page without a next cursor. The pages, put end to end, are the whole listing:
  no record twice, exactly the records that meet the listing's conditions (and whose owner
  is a user, as the join requires), strictly descending by update time, then id.
\<close>

theorem getMany_enumerates_once:
  assumes "distinct (map u_id (users d))"
    and "distinct (map p_id (playlists d))" and "\<forall>p \<in> set (playlists d). cuid2 (p_id p)"
    and "distinct (map v_id (videos d))" and "\<forall>v \<in> set (videos d). cuid2 (v_id v)"
    and "cuid2_nullish cat"
    and "1 \<le> L" and "L \<le> 100"
    and "length (playlists d) < n" and "length (videos d) < m"
  shows "(\<exists>pages. follow_cursors n (\<lambda>c. fst (playlists_getMany d me c (of_nat L))) None = Some pages
          \<and> pages \<noteq> [] \<and> nextCursor (last pages) = None
          \<and> concat (map items pages) = playlists_getMany_listing d me
          \<and> distinct (map item_playlist (concat (map items pages)))
          \<and> item_playlist ` set (concat (map items pages))
              = {p \<in> set (playlists d). p_userId p = me \<and> me \<in> u_id ` set (users d)}
          \<and> sorted_wrt (\<lambda>a b. p_updatedAt (item_playlist b) < p_updatedAt (item_playlist a)
                \<or> (p_updatedAt (item_playlist b) = p_updatedAt (item_playlist a)
                    \<and> p_id (item_playlist b) < p_id (item_playlist a)))
              (concat (map items pages)))
    \<and> (\<exists>pages. follow_cursors m (\<lambda>c. fst (videos_getMany d u cat c (of_nat L))) None = Some pages
          \<and> pages \<noteq> [] \<and> nextCursor (last pages) = None
          \<and> concat (map items pages) = videos_getMany_listing d u cat
          \<and> distinct (map item_video (concat (map items pages)))
          \<and> item_video ` set (concat (map items pages))
              = {v \<in> set (videos d). videos_getMany_filter u cat v \<and> v_userId v \<in> u_id ` set (users d)}
          \<and> sorted_wrt (\<lambda>a b. v_updatedAt (item_video b) < v_updatedAt (item_video a)
                \<or> (v_updatedAt (item_video b) = v_updatedAt (item_video a)
                    \<and> v_id (item_video b) < v_id (item_video a)))
              (concat (map items pages)))"
proof (rule conjI)
  let ?S = "playlists_getMany_listing d me"
  obtain pages where pages:
    "follow_cursors n (\<lambda>c. fst (playlists_getMany d me c (of_nat L))) None = Some pages"
    "concat (map items pages) = ?S" "pages \<noteq> []" "nextCursor (last pages) = None"
    using follow_cursors_playlists_getMany [OF assms(1,2,3,7,8,9)] by blast
  have "distinct (map item_playlist ?S)"
    using playlists_getMany_listing_keys [OF assms(2,1)] by (rule distinct_map_outer)
  moreover have "sorted_wrt (\<lambda>a b. p_updatedAt (item_playlist b) < p_updatedAt (item_playlist a)
                \<or> (p_updatedAt (item_playlist b) = p_updatedAt (item_playlist a)
                    \<and> p_id (item_playlist b) < p_id (item_playlist a))) ?S"
    using playlists_getMany_listing_strict [OF assms(2,1), of me]
    by (rule sorted_wrt_mono_rel [rotated]) auto
  ultimately show "\<exists>pages. follow_cursors n (\<lambda>c. fst (playlists_getMany d me c (of_nat L))) None = Some pages
          \<and> pages \<noteq> [] \<and> nextCursor (last pages) = None
          \<and> concat (map items pages) = playlists_getMany_listing d me
          \<and> distinct (map item_playlist (concat (map items pages)))
          \<and> item_playlist ` set (concat (map items pages))
              = {p \<in> set (playlists d). p_userId p = me \<and> me \<in> u_id ` set (users d)}
          \<and> sorted_wrt (\<lambda>a b. p_updatedAt (item_playlist b) < p_updatedAt (item_playlist a)
                \<or> (p_updatedAt (item_playlist b) = p_updatedAt (item_playlist a)
                    \<and> p_id (item_playlist b) < p_id (item_playlist a)))
              (concat (map items pages))"
    using pages set_playlists_getMany_listing [of d me] by (intro exI [of _ pages]) (simp only: simp_thms)
next
  let ?S = "videos_getMany_listing d u cat"
  obtain pages where pages:
    "follow_cursors m (\<lambda>c. fst (videos_getMany d u cat c (of_nat L))) None = Some pages"
    "concat (map items pages) = ?S" "pages \<noteq> []" "nextCursor (last pages) = None"
    using follow_cursors_videos_getMany [OF assms(1,4,5,6,7,8,10)] by blast
  have "distinct (map item_video ?S)"
    using videos_getMany_listing_keys [OF assms(4,1)] by (rule distinct_map_outer)
  moreover have "sorted_wrt (\<lambda>a b. v_updatedAt (item_video b) < v_updatedAt (item_video a)
                \<or> (v_updatedAt (item_video b) = v_updatedAt (item_video a)
                    \<and> v_id (item_video b) < v_id (item_video a))) ?S"
    using videos_getMany_listing_strict [OF assms(4,1), of u cat]
    by (rule sorted_wrt_mono_rel [rotated]) auto
  ultimately show "\<exists>pages. follow_cursors m (\<lambda>c. fst (videos_getMany d u cat c (of_nat L))) None = Some pages
          \<and> pages \<noteq> [] \<and> nextCursor (last pages) = None
          \<and> concat (map items pages) = videos_getMany_listing d u cat
          \<and> distinct (map item_video (concat (map items pages)))
          \<and> item_video ` set (concat (map items pages))
              = {v \<in> set (videos d). videos_getMany_filter u cat v \<and> v_userId v \<in> u_id ` set (users d)}
          \<and> sorted_wrt (\<lambda>a b. v_updatedAt (item_video b) < v_updatedAt (item_video a)
                \<or> (v_updatedAt (item_video b) = v_updatedAt (item_video a)
                    \<and> v_id (item_video b) < v_id (item_video a)))
              (concat (map items pages))"
    using pages set_videos_getMany_listing [of d u cat] by (intro exI [of _ pages]) (simp only: simp_thms)
qed

text \<open>
  C1 on the small store with L = 2: two pages each, three playlists of u1 and the three
  public videos.
\<close>

theorem getMany_enumerates_once_witness:
  "map_option (map (\<lambda>pg. (map (\<lambda>r. p_id (item_playlist r)) (items pg), nextCursor pg)))
       (follow_cursors 5 (\<lambda>c. fst (playlists_getMany demo ''u1'' c 2)) None)
     = Some [([''pc'', ''pb''], Some \<lparr>cursor_id = ''pb'', cursor_key = 5\<rparr>), ([''pa''], None)]
   \<and> map_option (map (\<lambda>pg. (map (\<lambda>r. v_id (item_video r)) (items pg), nextCursor pg)))
       (follow_cursors 5 (\<lambda>c. fst (videos_getMany demo None None c 2)) None)
     = Some [([''vd'', ''vb''], Some \<lparr>cursor_id = ''vb'', cursor_key = 2\<rparr>), ([''va''], None)]
   \<and> (\<exists>pages. follow_cursors 5 (\<lambda>c. fst (playlists_getMany demo ''u1'' c 2)) None = Some pages
         \<and> pages \<noteq> [] \<and> nextCursor (last pages) = None
         \<and> distinct (map item_playlist (concat (map items pages)))
         \<and> item_playlist ` set (concat (map items pages))
             = {p \<in> set (playlists demo). p_userId p = ''u1'' \<and> ''u1'' \<in> u_id ` set (users demo)})
   \<and> (\<exists>pages. follow_cursors 5 (\<lambda>c. fst (videos_getMany demo None None c 2)) None = Some pages
         \<and> pages \<noteq> [] \<and> nextCursor (last pages) = None
         \<and> distinct (map item_video (concat (map items pages)))
         \<and> item_video ` set (concat (map items pages))
             = {v \<in> set (videos demo). videos_getMany_filter None None v
                  \<and> v_userId v \<in> u_id ` set (users demo)})"
proof -
  have run: "map_option (map (\<lambda>pg. (map (\<lambda>r. p_id (item_playlist r)) (items pg), nextCursor pg)))
       (follow_cursors 5 (\<lambda>c. fst (playlists_getMany demo ''u1'' c 2)) None)
     = Some [([''pc'', ''pb''], Some \<lparr>cursor_id = ''pb'', cursor_key = 5\<rparr>), ([''pa''], None)]"
    "map_option (map (\<lambda>pg. (map (\<lambda>r. v_id (item_video r)) (items pg), nextCursor pg)))
       (follow_cursors 5 (\<lambda>c. fst (videos_getMany demo None None c 2)) None)
     = Some [([''vd'', ''vb''], Some \<lparr>cursor_id = ''vb'', cursor_key = 2\<rparr>), ([''va''], None)]"
    by code_simp+
  have hyps: "distinct (map u_id (users demo))"
    "distinct (map p_id (playlists demo))" "\<forall>p \<in> set (playlists demo). cuid2 (p_id p)"
    "distinct (map v_id (videos demo))" "\<forall>v \<in> set (videos demo). cuid2 (v_id v)"
    "cuid2_nullish None" "1 \<le> (2::nat)" "(2::nat) \<le> 100"
    "length (playlists demo) < 5" "length (videos demo) < 5"
    by (simp_all add: demo_def demo_playlist_def demo_video_def cuid2_def cuid2_nullish_def)
  show ?thesis
    using run getMany_enumerates_once [OF hyps, of "''u1''" None]
    by (simp only: of_nat_numeral) blast
qed

end
